theory Spec2Isabelle
  imports Main
begin

section \<open>Python string operations used by the code\<close>

text \<open>
  Python \<open>str\<close> values are modelled as \<open>string\<close>, a list of characters, each character
  standing for the code point of the same number (0 to 255); a \<open>bytes\<close> value is a list of
  the same type, each character standing for a byte. The helpers below follow the
  semantics of the built-in methods the two source files call. Whitespace is what
  \<open>str.isspace\<close> accepts among these code points: tab, line feed, vertical tab, form feed,
  carriage return, the separators 0x1C to 0x1F, the space, the next-line character 0x85
  and the no-break space 0xA0.
\<close>

type_synonym bytes = "char list"

definition isspace :: "char \<Rightarrow> bool" where
  "isspace c =
     (let n = (of_char c :: nat)
      in (9 \<le> n \<and> n \<le> 13) \<or> (28 \<le> n \<and> n \<le> 32) \<or> n = 133 \<or> n = 160)"

definition lstrip :: "string \<Rightarrow> string" where
  "lstrip s = dropWhile isspace s"

definition rstrip :: "string \<Rightarrow> string" where
  "rstrip s = rev (dropWhile isspace (rev s))"

text \<open>\<open>s.strip()\<close>\<close>

definition strip :: "string \<Rightarrow> string" where
  "strip s = rstrip (lstrip s)"

text \<open>\<open>b.strip()\<close> on \<open>bytes\<close>: the whitespace bytes are the space and 0x09 to 0x0D.\<close>

definition is_bytes_space :: "char \<Rightarrow> bool" where
  "is_bytes_space c = (let n = (of_char c :: nat) in n = 32 \<or> (9 \<le> n \<and> n \<le> 13))"

definition bytes_strip :: "bytes \<Rightarrow> bytes" where
  "bytes_strip b = rev (dropWhile is_bytes_space (rev (dropWhile is_bytes_space b)))"

text \<open>\<open>s.strip(chars)\<close>: removes leading and trailing characters that occur in \<open>chars\<close>.\<close>

definition strip_chars :: "string \<Rightarrow> string \<Rightarrow> string" where
  "strip_chars chars s =
     rev (dropWhile (\<lambda>c. c \<in> set chars) (rev (dropWhile (\<lambda>c. c \<in> set chars) s)))"

text \<open>\<open>s.startswith(p)\<close> and \<open>s.endswith(p)\<close>\<close>

definition startswith :: "string \<Rightarrow> string \<Rightarrow> bool" where
  "startswith s p = (take (length p) s = p)"

definition endswith :: "string \<Rightarrow> string \<Rightarrow> bool" where
  "endswith s p = (length p \<le> length s \<and> drop (length s - length p) s = p)"

text \<open>\<open>s.removeprefix(p)\<close> and \<open>s.removesuffix(p)\<close>\<close>

definition removeprefix :: "string \<Rightarrow> string \<Rightarrow> string" where
  "removeprefix p s = (if startswith s p then drop (length p) s else s)"

definition removesuffix :: "string \<Rightarrow> string \<Rightarrow> string" where
  "removesuffix p s = (if p \<noteq> [] \<and> endswith s p then take (length s - length p) s else s)"

text \<open>The markdown fence, three backticks.\<close>

definition backtick :: char where
  "backtick = CHR 0x60"

definition fence :: string where
  "fence = [backtick, backtick, backtick]"

section \<open>Code normalisation of the direct-invocation variant\<close>

text \<open>
  Lines 99 to 102 of \<open>Tools._run_code\<close>:
  \<^verbatim>\<open>
  code = code.strip()
  code = code.removeprefix("```" + language).removeprefix("```").removesuffix("```")
  code = code.strip()
  code = code.strip("`").strip()
  \<close>
\<close>

definition normalize :: "string \<Rightarrow> string \<Rightarrow> string" where
  "normalize language code =
     (let c1 = strip code;
          c2 = removesuffix fence (removeprefix fence (removeprefix (fence @ language) c1));
          c3 = strip c2
      in strip (strip_chars [backtick] c3))"


section \<open>Further string helpers\<close>

definition newline :: char where
  "newline = CHR 0x0A"

text \<open>\<open>sub in s\<close>\<close>

fun contains :: "string \<Rightarrow> string \<Rightarrow> bool" where
  "contains sub [] = (sub = [])"
| "contains sub (c # cs) = (startswith (c # cs) sub \<or> contains sub cs)"

text \<open>
  \<open>s.split("```")\<close>: the segments between the non-overlapping occurrences of the fence,
  found from the left. The result is never empty.
\<close>

fun split_fence :: "string \<Rightarrow> string list" where
  "split_fence [] = [[]]"
| "split_fence (c # cs) =
     (if take 3 (c # cs) = fence then [] # split_fence (drop 3 (c # cs))
      else (case split_fence cs of [] \<Rightarrow> [[c]] | seg # segs \<Rightarrow> (c # seg) # segs))"

text \<open>\<open>s.split("\n")[0]\<close>\<close>

definition first_line_of :: "string \<Rightarrow> string" where
  "first_line_of s = takeWhile (\<lambda>c. c \<noteq> newline) s"

text \<open>\<open>s.title()\<close> on ASCII letters: a letter that follows a letter is lowered, any other
  letter is raised. The code applies it to the language name only, \<open>python\<close> or \<open>bash\<close>
  in every call the two files make.\<close>

definition is_lower :: "char \<Rightarrow> bool" where
  "is_lower c = (let n = (of_char c :: nat) in 97 \<le> n \<and> n \<le> 122)"

definition is_upper :: "char \<Rightarrow> bool" where
  "is_upper c = (let n = (of_char c :: nat) in 65 \<le> n \<and> n \<le> 90)"

definition to_upper :: "char \<Rightarrow> char" where
  "to_upper c = (if is_lower c then char_of ((of_char c :: nat) - 32) else c)"

definition to_lower :: "char \<Rightarrow> char" where
  "to_lower c = (if is_upper c then char_of ((of_char c :: nat) + 32) else c)"

fun title_from :: "bool \<Rightarrow> string \<Rightarrow> string" where
  "title_from prev [] = []"
| "title_from prev (c # cs) =
     (if is_lower c \<or> is_upper c
      then (if prev then to_lower c else to_upper c) # title_from True cs
      else c # title_from False cs)"

definition title :: "string \<Rightarrow> string" where
  "title s = title_from False s"

text \<open>\<open>str(n)\<close> for integers and booleans, and the rendering of \<open>None\<close> in an f-string.\<close>

fun str_nat :: "nat \<Rightarrow> string" where
  "str_nat n =
     (if n < 10 then [char_of (48 + n)] else str_nat (n div 10) @ [char_of (48 + n mod 10)])"

definition str_int :: "int \<Rightarrow> string" where
  "str_int i = (if i < 0 then CHR ''-'' # str_nat (nat (- i)) else str_nat (nat i))"

definition str_bool :: "bool \<Rightarrow> string" where
  "str_bool b = (if b then ''True'' else ''False'')"

text \<open>Truth value of an optional string: \<open>None\<close> and the empty string are false.\<close>

definition truthy :: "string option \<Rightarrow> bool" where
  "truthy v = (case v of None \<Rightarrow> False | Some s \<Rightarrow> s \<noteq> [])"

subsection \<open>Values that are \<open>None\<close>, text or bytes\<close>

text \<open>
  The variable \<open>output\<close> holds \<open>None\<close>, a \<open>str\<close> (the captured output of a completed
  process, decoded because of \<open>text=True\<close>) or a \<open>bytes\<close> value: on a POSIX system, where
  \<open>/bin/bash\<close> and \<open>/dev/stdin\<close> exist, the \<open>stderr\<close> attribute of \<open>TimeoutExpired\<close> is
  \<open>bytes\<close> whenever anything was captured, whatever \<open>text\<close> says, and \<open>None\<close> otherwise.
\<close>

datatype pyvalue = NoneValue | Str string | Bytes bytes

text \<open>\<open>if output:\<close>\<close>

definition value_truthy :: "pyvalue \<Rightarrow> bool" where
  "value_truthy v = (case v of NoneValue \<Rightarrow> False | Str s \<Rightarrow> s \<noteq> [] | Bytes b \<Rightarrow> b \<noteq> [])"

text \<open>\<open>output.strip()\<close>, called on a value that is not \<open>None\<close>.\<close>

definition strip_value :: "pyvalue \<Rightarrow> pyvalue" where
  "strip_value v =
     (case v of NoneValue \<Rightarrow> NoneValue | Str s \<Rightarrow> Str (strip s) | Bytes b \<Rightarrow> Bytes (bytes_strip b))"

definition hex_digit :: "nat \<Rightarrow> char" where
  "hex_digit n = (if n < 10 then char_of (48 + n) else char_of (87 + n))"

text \<open>
  \<open>repr(b)\<close> of a \<open>bytes\<close> value, which is what an f-string shows for it: the letter b and
  the bytes between single quotes (double quotes when the value has a single quote and no
  double quote), with the quote, the backslash, tab, line feed, carriage return and every
  byte outside 0x20 to 0x7E escaped.
\<close>

definition repr_byte :: "char \<Rightarrow> char \<Rightarrow> string" where
  "repr_byte q c =
     (let n = (of_char c :: nat) in
      if c = q \<or> n = 0x5C then [CHR 0x5C, c]
      else if n = 9 then [CHR 0x5C, CHR ''t'']
      else if n = 10 then [CHR 0x5C, CHR ''n'']
      else if n = 13 then [CHR 0x5C, CHR ''r'']
      else if n < 32 \<or> 127 \<le> n then [CHR 0x5C, CHR ''x'', hex_digit (n div 16), hex_digit (n mod 16)]
      else [c])"

definition bytes_repr :: "bytes \<Rightarrow> string" where
  "bytes_repr b =
     (let q = (if CHR 0x27 \<in> set b \<and> CHR 0x22 \<notin> set b then CHR 0x22 else CHR 0x27)
      in [CHR ''b'', q] @ concat (map (repr_byte q) b) @ [q])"

text \<open>The text an f-string shows for a value.\<close>

definition str_value :: "pyvalue \<Rightarrow> string" where
  "str_value v = (case v of NoneValue \<Rightarrow> ''None'' | Str s \<Rightarrow> s | Bytes b \<Rightarrow> bytes_repr b)"

text \<open>The attribute \<open>stderr\<close> of an exception, as a value: \<open>None\<close> or the captured
  \<open>bytes\<close> of \<open>TimeoutExpired\<close>, \<open>None\<close> or the captured text of \<open>CalledProcessError\<close>.\<close>

definition bytes_value :: "bytes option \<Rightarrow> pyvalue" where
  "bytes_value v = (case v of None \<Rightarrow> NoneValue | Some b \<Rightarrow> Bytes b)"

definition text_value :: "string option \<Rightarrow> pyvalue" where
  "text_value v = (case v of None \<Rightarrow> NoneValue | Some s \<Rightarrow> Str s)"

section \<open>Data model\<close>

record Valves =
  MAX_RUNTIME_SECONDS :: int
  DEBUG :: bool

text \<open>The text of \<open>f"{valves}"\<close> for the two-field settings class.\<close>

definition str_valves :: "Valves \<Rightarrow> string" where
  "str_valves v =
     ''MAX_RUNTIME_SECONDS='' @ str_int (MAX_RUNTIME_SECONDS v) @ '' DEBUG='' @ str_bool (DEBUG v)"

datatype status_code = UNKNOWN | OK | ERROR | TIMEOUT | INVALID_INPUT | SANDBOX_ERROR

fun str_status :: "status_code \<Rightarrow> string" where
  "str_status UNKNOWN = ''UNKNOWN''"
| "str_status OK = ''OK''"
| "str_status ERROR = ''ERROR''"
| "str_status TIMEOUT = ''TIMEOUT''"
| "str_status INVALID_INPUT = ''INVALID_INPUT''"
| "str_status SANDBOX_ERROR = ''SANDBOX_ERROR''"

text \<open>The dictionary \<open>{"status": ..., "output": ...}\<close> both variants return.\<close>

record outcome =
  res_status :: status_code
  res_output :: pyvalue

text \<open>
  Exceptions. \<open>TimeoutExpired\<close> carries its text and the standard error captured so far
  (bytes, or \<open>None\<close> when nothing was captured); \<open>CalledProcessError\<close> the return code, the
  command, and the captured output and standard error (text); \<open>KeyError\<close> the missing key;
  \<open>OtherException\<close> is any other subclass of \<open>Exception\<close>, with its text.
  \<open>BaseException\<close> is an exception that is not a subclass of \<open>Exception\<close>, with its text:
  \<open>asyncio.CancelledError\<close>, \<open>KeyboardInterrupt\<close>, \<open>SystemExit\<close>. A clause
  \<open>except Exception\<close> catches every exception but these.
\<close>

datatype exn =
    RuntimeError string
  | AttributeError string
  | TypeError string
  | KeyError string
  | TimeoutExpired string "bytes option"
  | CalledProcessError int "string list" "string option" "string option"
  | OtherException string
  | BaseException string

fun is_exception :: "exn \<Rightarrow> bool" where
  "is_exception (BaseException m) = False"
| "is_exception e = True"

record CompletedProcess =
  returncode :: int
  stdout :: string
  stderr :: string

text \<open>
  What \<open>subprocess.run(..., check=False)\<close> can do: return a completed process, raise
  \<open>TimeoutExpired\<close> (with its text and the bytes of standard error captured so far, if
  any), or fail with another subclass of \<open>Exception\<close> such as \<open>OSError\<close> (with its text).
\<close>

datatype proc_result =
    Completed CompletedProcess
  | TimedOut string "bytes option"
  | Failed string

text \<open>
  The request body of the transcript variant: its list of messages (empty when the key
  is missing). A message is a dictionary; each of the keys \<open>"role"\<close> and \<open>"content"\<close> is
  absent (\<open>None\<close>) or holds a value, which is a string or something else: \<open>None\<close> or a
  list of parts, given by the name of its type, which has no method \<open>split\<close>.
\<close>

datatype field = Text string | NonText string

record Message =
  msg_role :: "field option"
  msg_content :: "field option"

record Body =
  messages :: "Message list"

text \<open>
  The environment of one request: the interpreter path \<open>sys.executable\<close>, the
  identity string \<open>str(id(tracker))\<close> of the tracker object, the behaviour of
  \<open>subprocess.run\<close> on a command, its standard input and its timeout, the text the
  standard library gives a \<open>CalledProcessError\<close> for a return code and a command, and
  the text of \<open>f"{body}"\<close> for a request body.
\<close>

record env =
  sys_executable :: string
  tracker_id :: string
  subprocess_run :: "string list \<Rightarrow> string \<Rightarrow> int \<Rightarrow> proc_result"
  str_CalledProcessError :: "int \<Rightarrow> string list \<Rightarrow> string"
  str_body :: "Body \<Rightarrow> string"

definition str_exn :: "env \<Rightarrow> exn \<Rightarrow> string" where
  "str_exn ev e =
     (case e of
        RuntimeError m \<Rightarrow> m
      | AttributeError m \<Rightarrow> m
      | TypeError m \<Rightarrow> m
      | KeyError k \<Rightarrow> [CHR 0x27] @ k @ [CHR 0x27]
      | TimeoutExpired m err \<Rightarrow> m
      | CalledProcessError rc cmd out err \<Rightarrow> str_CalledProcessError ev rc cmd
      | OtherException m \<Rightarrow> m
      | BaseException m \<Rightarrow> m)"

subsection \<open>Execution tracker\<close>

text \<open>The dictionary \<open>_result\<close>: each of the keys \<open>"error"\<close> and \<open>"output"\<close> is absent
  (\<open>None\<close>) or present with its value; the output value may be \<open>None\<close>, text or bytes.\<close>

record TrackerResult =
  error_entry :: "string option"
  output_entry :: "pyvalue option"

record CodeExecutionTracker =
  tr_uuid :: string
  tr_name :: string
  tr_code :: string
  tr_language :: string
  tr_result :: TrackerResult

definition new_tracker :: "string \<Rightarrow> string \<Rightarrow> string \<Rightarrow> string \<Rightarrow> CodeExecutionTracker" where
  "new_tracker uid nm cd lang =
     \<lparr>tr_uuid = uid, tr_name = nm, tr_code = cd, tr_language = lang,
      tr_result = \<lparr>error_entry = None, output_entry = None\<rparr>\<rparr>"

definition set_error :: "string \<Rightarrow> CodeExecutionTracker \<Rightarrow> CodeExecutionTracker" where
  "set_error err t = t\<lparr>tr_result := (tr_result t)\<lparr>error_entry := Some err\<rparr>\<rparr>"

definition set_output :: "pyvalue \<Rightarrow> CodeExecutionTracker \<Rightarrow> CodeExecutionTracker" where
  "set_output out t = t\<lparr>tr_result := (tr_result t)\<lparr>output_entry := Some out\<rparr>\<rparr>"

record citation =
  c_type :: string
  c_id :: string
  c_name :: string
  c_code :: string
  c_language :: string
  c_result :: "TrackerResult option"

definition citation_data :: "CodeExecutionTracker \<Rightarrow> citation" where
  "citation_data t =
     \<lparr>c_type = ''code_execution'', c_id = tr_uuid t, c_name = tr_name t, c_code = tr_code t,
      c_language = tr_language t,
      c_result = (if output_entry (tr_result t) \<noteq> None \<or> error_entry (tr_result t) \<noteq> None
                  then Some (tr_result t) else None)\<rparr>"

subsection \<open>Notifications and the event emitter\<close>

datatype event_data =
    StatusData string string bool
  | MessageData string
  | CitationData citation

datatype event = Event string event_data

text \<open>
  The sink is the caller's callback. Called with an event, it returns or raises; what it
  does may depend on the events it was called with before, so it is a function of that
  history and the event, giving the exception it raises, if any.
\<close>

type_synonym sink = "event list \<Rightarrow> event \<Rightarrow> exn option"

text \<open>The emitter object. The field \<open>calls\<close> is not in the source: it records every
  invocation of the sink, oldest first.\<close>

record EventEmitter =
  event_emitter :: "sink option"
  debug :: bool
  status_prefix :: "string option"
  emitted_status :: bool
  calls :: "event list"

definition new_emitter :: "sink option \<Rightarrow> bool \<Rightarrow> EventEmitter" where
  "new_emitter snk dbg =
     \<lparr>event_emitter = snk, debug = dbg, status_prefix = None, emitted_status = False,
      calls = []\<rparr>"

text \<open>
  The class \<open>EventEmitter\<close> is the same in both source files but for one test: \<open>status\<close>
  prepends the prefix when it is truthy in one file and when it is not \<open>None\<close> in the
  other. Prepending the empty prefix changes nothing, so one model serves both. The line
  that \<open>_emit\<close> prints to standard error in debug mode is left out, as is the value an
  awaited sink returns, which no caller reads.
\<close>

text \<open>The loop of \<open>_emit\<close>: the sink is called \<open>n\<close> times unless a call raises.\<close>

fun call_sink :: "nat \<Rightarrow> sink \<Rightarrow> event \<Rightarrow> EventEmitter \<Rightarrow> exn option \<times> EventEmitter" where
  "call_sink 0 snk ev em = (None, em)"
| "call_sink (Suc n) snk ev em =
     (case snk (calls em) ev of
        Some e \<Rightarrow> (Some e, em\<lparr>calls := calls em @ [ev]\<rparr>)
      | None \<Rightarrow> call_sink n snk ev (em\<lparr>calls := calls em @ [ev]\<rparr>))"

definition emit :: "string \<Rightarrow> event_data \<Rightarrow> bool \<Rightarrow> EventEmitter \<Rightarrow> exn option \<times> EventEmitter" where
  "emit typ dat twice em =
     (case event_emitter em of
        None \<Rightarrow> (None, em)
      | Some snk \<Rightarrow> call_sink (if twice then 2 else 1) snk (Event typ dat) em)"

definition status :: "string \<Rightarrow> string \<Rightarrow> bool \<Rightarrow> EventEmitter \<Rightarrow> exn option \<times> EventEmitter" where
  "status description st done em =
     (let em1 = em\<lparr>emitted_status := True\<rparr>;
          description1 = (case status_prefix em1 of
                            None \<Rightarrow> description
                          | Some p \<Rightarrow> if p \<noteq> [] then p @ description else description)
      in emit ''status'' (StatusData st description1 done)
           (\<not> done \<and> length description1 \<le> 1024) em1)"

definition fail :: "string \<Rightarrow> EventEmitter \<Rightarrow> exn option \<times> EventEmitter" where
  "fail description em = status description ''error'' True em"

definition clear_status :: "EventEmitter \<Rightarrow> exn option \<times> EventEmitter" where
  "clear_status em =
     (if \<not> emitted_status em then (None, em)
      else emit ''status'' (StatusData ''complete'' [] True) True (em\<lparr>emitted_status := False\<rparr>))"

definition message :: "string \<Rightarrow> EventEmitter \<Rightarrow> exn option \<times> EventEmitter" where
  "message content em = emit ''message'' (MessageData content) False em"

definition code_execution :: "CodeExecutionTracker \<Rightarrow> EventEmitter \<Rightarrow> exn option \<times> EventEmitter" where
  "code_execution t em = emit ''citation'' (CitationData (citation_data t)) True em"


section \<open>Sequencing with exceptions\<close>

text \<open>
  The state one request threads through its steps: the emitter object and the variable
  \<open>execution_tracker\<close> (which is \<open>None\<close> until the tracker is created). A step
  returns a value or raises, and leaves a state behind in both cases.
\<close>

record run_state =
  emitter :: EventEmitter
  execution_tracker :: "CodeExecutionTracker option"

type_synonym 'a io = "run_state \<Rightarrow> (exn + 'a) \<times> run_state"

definition io_return :: "'a \<Rightarrow> 'a io" where
  "io_return x = (\<lambda>s. (Inr x, s))"

definition io_raise :: "exn \<Rightarrow> 'a io" where
  "io_raise e = (\<lambda>s. (Inl e, s))"

definition io_bind :: "'a io \<Rightarrow> ('a \<Rightarrow> 'b io) \<Rightarrow> 'b io" where
  "io_bind m f = (\<lambda>s. case m s of (Inl e, s1) \<Rightarrow> (Inl e, s1) | (Inr x, s1) \<Rightarrow> f x s1)"

definition io_then :: "unit io \<Rightarrow> 'b io \<Rightarrow> 'b io" where
  "io_then m k = io_bind m (\<lambda>u. k)"

text \<open>\<open>try: m except ...\<close>: the handler table \<open>h\<close> gives the handler of an exception, or
  \<open>None\<close> when no \<open>except\<close> clause matches and the exception goes on.\<close>

definition io_except :: "'a io \<Rightarrow> (exn \<Rightarrow> 'a io option) \<Rightarrow> 'a io" where
  "io_except m h =
     (\<lambda>s. case m s of
        (Inl e, s1) \<Rightarrow> (case h e of None \<Rightarrow> (Inl e, s1) | Some k \<Rightarrow> k s1)
      | (Inr x, s1) \<Rightarrow> (Inr x, s1))"

text \<open>A method call on the emitter, as a step.\<close>

definition on_emitter :: "(EventEmitter \<Rightarrow> exn option \<times> EventEmitter) \<Rightarrow> unit io" where
  "on_emitter f =
     (\<lambda>s. case f (emitter s) of
        (None, em) \<Rightarrow> (Inr (), s\<lparr>emitter := em\<rparr>)
      | (Some e, em) \<Rightarrow> (Inl e, s\<lparr>emitter := em\<rparr>))"

text \<open>The text of the \<open>AttributeError\<close> for a method call on an object of a type without
  that method, and on \<open>None\<close>.\<close>

definition has_no_attribute :: "string \<Rightarrow> string \<Rightarrow> string" where
  "has_no_attribute ty attr =
     [CHR 0x27] @ ty @ [CHR 0x27] @ '' object has no attribute '' @ [CHR 0x27] @ attr @ [CHR 0x27]"

definition none_has_no :: "string \<Rightarrow> string" where
  "none_has_no attr = has_no_attribute ''NoneType'' attr"

text \<open>\<open>await emitter.code_execution(execution_tracker)\<close>,
  \<open>execution_tracker.set_error(...)\<close> and \<open>execution_tracker.set_output(...)\<close>\<close>

definition publish :: "unit io" where
  "publish =
     (\<lambda>s. case execution_tracker s of
        None \<Rightarrow> (Inl (AttributeError (none_has_no ''_citation_data'')), s)
      | Some t \<Rightarrow> on_emitter (code_execution t) s)"

definition tracker_set_error :: "string \<Rightarrow> unit io" where
  "tracker_set_error err =
     (\<lambda>s. case execution_tracker s of
        None \<Rightarrow> (Inl (AttributeError (none_has_no ''set_error'')), s)
      | Some t \<Rightarrow> (Inr (), s\<lparr>execution_tracker := Some (set_error err t)\<rparr>))"

definition tracker_set_output :: "pyvalue \<Rightarrow> unit io" where
  "tracker_set_output out =
     (\<lambda>s. case execution_tracker s of
        None \<Rightarrow> (Inl (AttributeError (none_has_no ''set_output'')), s)
      | Some t \<Rightarrow> (Inr (), s\<lparr>execution_tracker := Some (set_output out t)\<rparr>))"

definition create_tracker :: "CodeExecutionTracker \<Rightarrow> unit io" where
  "create_tracker t = (\<lambda>s. (Inr (), s\<lparr>execution_tracker := Some t\<rparr>))"

definition initial_state :: "sink option \<Rightarrow> Valves \<Rightarrow> run_state" where
  "initial_state snk valves =
     \<lparr>emitter = new_emitter snk (DEBUG valves), execution_tracker = None\<rparr>"

section \<open>Steps shared by the two variants\<close>

text \<open>Interpreter selection; \<open>sys.executable\<close> may be empty, which counts as not found.\<close>

definition select_interpreter :: "env \<Rightarrow> string \<Rightarrow> string io" where
  "select_interpreter ev language =
     (let interpreter_path =
            (if language = ''bash'' then Some ''/bin/bash''
             else if language = ''python'' then Some (sys_executable ev)
             else None)
      in case interpreter_path of
           None \<Rightarrow> io_raise (RuntimeError (''Cannot find interpreter for language: '' @ language))
         | Some p \<Rightarrow>
             if p = [] then io_raise (RuntimeError (''Cannot find interpreter for language: '' @ language))
             else io_return p)"

text \<open>The call of \<open>subprocess.run\<close> with the code and a final newline on standard input.
  The temporary directory around it is taken to be created and removed without error.\<close>

definition run_subprocess :: "env \<Rightarrow> Valves \<Rightarrow> string \<Rightarrow> string \<Rightarrow> CompletedProcess io" where
  "run_subprocess ev valves interpreter_path cd =
     (case subprocess_run ev [interpreter_path, ''/dev/stdin''] (cd @ [newline])
             (MAX_RUNTIME_SECONDS valves) of
        Completed result \<Rightarrow> io_return result
      | TimedOut m err \<Rightarrow> io_raise (TimeoutExpired m err)
      | Failed m \<Rightarrow> io_raise (OtherException m))"

definition timeout_text :: "Valves \<Rightarrow> string" where
  "timeout_text valves =
     ''Code timed out after '' @ str_int (MAX_RUNTIME_SECONDS valves) @ '' seconds''"

definition debug_text :: "Valves \<Rightarrow> status_code \<Rightarrow> pyvalue \<Rightarrow> string" where
  "debug_text valves st out =
     ''[DEBUG MODE] status='' @ str_status st @ ''; output='' @ str_value out
       @ ''; valves=['' @ str_valves valves @ '']''"

definition timeout_output_text :: "Valves \<Rightarrow> string \<Rightarrow> string \<Rightarrow> string" where
  "timeout_output_text valves language_title out =
     ''\<newline>\<newline>---\<newline>I executed this '' @ language_title @ '' code and it timed out after ''
       @ str_int (MAX_RUNTIME_SECONDS valves) @ '' seconds:\<newline>```Error\<newline>'' @ out @ ''\<newline>```\<newline>''"

definition timeout_only_text :: "Valves \<Rightarrow> string \<Rightarrow> string" where
  "timeout_only_text valves language_title =
     ''\<newline>\<newline>---\<newline>I executed this '' @ language_title @ '' code and it timed out after ''
       @ str_int (MAX_RUNTIME_SECONDS valves) @ '' seconds.\<newline>''"

definition error_output_text :: "string \<Rightarrow> string \<Rightarrow> string" where
  "error_output_text language_title out =
     ''\<newline>\<newline>---\<newline>I executed this '' @ language_title
       @ '' code and got the following error:\<newline>```Error\<newline>'' @ out @ ''\<newline>```\<newline>''"

definition error_only_text :: "string \<Rightarrow> string" where
  "error_only_text language_title =
     ''\<newline>\<newline>---\<newline>I executed this '' @ language_title
       @ '' code but got an unexplained error.\<newline>''"

definition unexplained_text :: "status_code \<Rightarrow> pyvalue \<Rightarrow> string" where
  "unexplained_text st out =
     ''Unexplained status: '' @ str_status st @ '' (output: '' @ str_value out @ '')''"

section \<open>The direct-invocation variant: \<open>Tools._run_code\<close>\<close>

text \<open>
  The closure \<open>_fail\<close> (lines 82 to 92). It reads the variables \<open>execution_tracker\<close>,
  \<open>language\<close> and \<open>code\<close> of the enclosing call as they are when it runs.
\<close>

definition fail_direct :: "Valves \<Rightarrow> string \<Rightarrow> string \<Rightarrow> string \<Rightarrow> status_code \<Rightarrow> outcome io" where
  "fail_direct valves language cd error_message st =
     io_then
       (\<lambda>s. case execution_tracker s of
          None \<Rightarrow> (Inr (), s)
        | Some t \<Rightarrow> io_then (tracker_set_error error_message) publish s)
       (io_then
          (on_emitter (fail
             (if DEBUG valves
              then ''[DEBUG MODE] '' @ error_message @ ''; language='' @ language @ ''; code='' @ cd
                     @ ''; valves=['' @ str_valves valves @ '']''
              else error_message)))
          (io_return \<lparr>res_status = st, res_output = Str error_message\<rparr>))"

text \<open>The inner \<open>try\<close> (lines 120 to 143): run the subprocess and classify. The pair is
  \<open>(status, output)\<close>; at a timeout the output is \<open>e.stderr\<close>, bytes or \<open>None\<close>.\<close>

definition execute :: "env \<Rightarrow> Valves \<Rightarrow> string \<Rightarrow> string \<Rightarrow> (status_code \<times> pyvalue) io" where
  "execute ev valves interpreter_path cd =
     io_except
       (io_bind (run_subprocess ev valves interpreter_path cd) (\<lambda>result.
          if returncode result \<noteq> 0 then io_return (ERROR, Str (stderr result))
          else io_return (OK, Str (stdout result))))
       (\<lambda>e. case e of
          TimeoutExpired m err \<Rightarrow>
            Some (io_then (on_emitter (fail (timeout_text valves)))
                 (io_then (tracker_set_error (timeout_text valves))
                 (io_return (TIMEOUT, bytes_value err))))
        | _ \<Rightarrow> None)"

text \<open>The final message (lines 154 to 176). In the \<open>OK\<close> branch the f-string calls
  \<open>output.strip()\<close>, which raises \<open>AttributeError\<close> on \<open>None\<close>.\<close>

definition final_message :: "Valves \<Rightarrow> string \<Rightarrow> string \<Rightarrow> string \<Rightarrow> status_code \<Rightarrow> pyvalue \<Rightarrow> unit io" where
  "final_message valves language language_title cd st out =
     (if st = OK then
        (if out = NoneValue then io_raise (AttributeError (none_has_no ''strip''))
         else
           on_emitter (message
             (''\<newline><details>\<newline><summary>Code Execution</summary>\<newline>I executed the following ''
                @ language @ '' code:\<newline>```'' @ language @ ''\<newline>'' @ cd
                @ ''\<newline>```\<newline>```Output\<newline>'' @ str_value (strip_value out) @ ''\<newline>```\<newline></details>\<newline>'')))
      else if st = TIMEOUT then
        (if value_truthy out
         then on_emitter (message (timeout_output_text valves language_title (str_value out)))
         else on_emitter (message (timeout_only_text valves language_title)))
      else if st = ERROR \<and> value_truthy out then
        on_emitter (message (error_output_text language_title (str_value out)))
      else if st = ERROR then
        on_emitter (message (error_only_text language_title))
      else io_raise (RuntimeError (unexplained_text st out)))"

text \<open>Lines 144 to 182: trim the output, update and publish the tracker, report.\<close>

definition report :: "Valves \<Rightarrow> string \<Rightarrow> string \<Rightarrow> string \<Rightarrow> status_code \<times> pyvalue \<Rightarrow> outcome io" where
  "report valves language language_title cd r =
     (let st = fst r;
          out = (if value_truthy (snd r) then strip_value (snd r) else snd r)
      in io_then (tracker_set_output out)
        (io_then publish
        (io_then
           (if DEBUG valves
            then on_emitter (status (debug_text valves st out)
                               (if st = OK then ''complete'' else ''error'') True)
            else io_return ())
        (io_then (final_message valves language language_title cd st out)
        (io_then publish
        (io_return \<lparr>res_status = st, res_output = out\<rparr>))))))"

text \<open>Lines 104 to 182, the body of the outer \<open>try\<close> once the code is normalised.\<close>

definition run_normalized :: "env \<Rightarrow> Valves \<Rightarrow> string \<Rightarrow> string \<Rightarrow> outcome io" where
  "run_normalized ev valves language cd =
     (let language_title = title language
      in io_then (create_tracker
                    (new_tracker (tracker_id ev) (language_title @ '' tool execution'') cd language))
        (io_then (on_emitter clear_status)
        (io_then publish
        (io_bind (select_interpreter ev language) (\<lambda>interpreter_path.
         io_bind (execute ev valves interpreter_path cd) (\<lambda>r.
         report valves language language_title cd r))))))"

text \<open>The outer handler (lines 183 and 184): \<open>except Exception as e\<close> catches the
  subclasses of \<open>Exception\<close> and lets every other exception pass.\<close>

definition handler_direct :: "env \<Rightarrow> Valves \<Rightarrow> string \<Rightarrow> string \<Rightarrow> exn \<Rightarrow> outcome io option" where
  "handler_direct ev valves language cd e =
     (if is_exception e
      then Some (fail_direct valves language cd (''Unhandled exception: '' @ str_exn ev e) SANDBOX_ERROR)
      else None)"

text \<open>\<open>Tools._run_code\<close>. Normalisation cannot raise, so the handler always sees the
  normalised code.\<close>

definition run_code :: "env \<Rightarrow> Valves \<Rightarrow> string \<Rightarrow> string \<Rightarrow> sink option \<Rightarrow> (exn + outcome) \<times> run_state" where
  "run_code ev valves language cd snk =
     io_except (run_normalized ev valves language (normalize language cd))
       (handler_direct ev valves language (normalize language cd))
       (initial_state snk valves)"

subsection \<open>The public entry points and their JSON result\<close>

datatype json_value = JNull | JString string

text \<open>String escaping of \<open>json.dumps(..., ensure_ascii=False)\<close>: the backslash, the double
  quote and the control characters below 0x20 are escaped, nothing else.\<close>

definition escape_char :: "char \<Rightarrow> string" where
  "escape_char c =
     (let n = (of_char c :: nat) in
      if n = 0x5C then [CHR 0x5C, CHR 0x5C]
      else if n = 0x22 then [CHR 0x5C, CHR 0x22]
      else if n = 8 then [CHR 0x5C, CHR ''b'']
      else if n = 12 then [CHR 0x5C, CHR ''f'']
      else if n = 10 then [CHR 0x5C, CHR ''n'']
      else if n = 13 then [CHR 0x5C, CHR ''r'']
      else if n = 9 then [CHR 0x5C, CHR ''t'']
      else if n < 32 then [CHR 0x5C, CHR ''u'', CHR ''0'', CHR ''0'', hex_digit (n div 16), hex_digit (n mod 16)]
      else [c])"

definition encode_basestring :: "string \<Rightarrow> string" where
  "encode_basestring s = [CHR 0x22] @ concat (map escape_char s) @ [CHR 0x22]"

definition dumps_value :: "json_value \<Rightarrow> string" where
  "dumps_value v = (case v of JNull \<Rightarrow> ''null'' | JString s \<Rightarrow> encode_basestring s)"

fun join_items :: "string list \<Rightarrow> string" where
  "join_items [] = []"
| "join_items [x] = x"
| "join_items (x # y # ys) = x @ '', '' @ join_items (y # ys)"

text \<open>\<open>json.dumps\<close> of a flat dictionary, in insertion order.\<close>

definition json_dumps :: "(string \<times> json_value) list \<Rightarrow> string" where
  "json_dumps kvs =
     ''{'' @ join_items (map (\<lambda>kv. encode_basestring (fst kv) @ '': '' @ dumps_value (snd kv)) kvs) @ ''}''"

text \<open>The output as a JSON value: \<open>None\<close> is \<open>null\<close>, text is a string, and \<open>bytes\<close> has
  no JSON form (\<open>json.dumps\<close> raises \<open>TypeError\<close> on it).\<close>

definition json_of_output :: "pyvalue \<Rightarrow> json_value option" where
  "json_of_output out =
     (case out of NoneValue \<Rightarrow> Some JNull | Str s \<Rightarrow> Some (JString s) | Bytes b \<Rightarrow> None)"


definition run_python_code :: "env \<Rightarrow> Valves \<Rightarrow> string \<Rightarrow> sink option \<Rightarrow> (exn + string) \<times> run_state" where
  "run_python_code ev valves python_code snk =
     (case run_code ev valves ''python'' python_code snk of
        (Inl e, s) \<Rightarrow> (Inl e, s)
      | (Inr result, s) \<Rightarrow>
          (case json_of_output (res_output result) of
             None \<Rightarrow> (Inl (TypeError ''Object of type bytes is not JSON serializable''), s)
           | Some out \<Rightarrow>
               (Inr (json_dumps [(''python_code'', JString python_code),
                                 (''status'', JString (str_status (res_status result))),
                                 (''output'', out)]), s)))"

section \<open>The transcript-invocation variant: \<open>Action.action\<close>\<close>

text \<open>The closure \<open>_fail\<close> (lines 32 to 39).\<close>

definition fail_transcript :: "env \<Rightarrow> Valves \<Rightarrow> Body \<Rightarrow> string \<Rightarrow> status_code \<Rightarrow> outcome io" where
  "fail_transcript ev valves body error_message st =
     io_then
       (on_emitter (fail
          (if DEBUG valves
           then ''[DEBUG MODE] '' @ error_message @ ''; body='' @ str_body ev body
                  @ ''; valves=['' @ str_valves valves @ '']''
           else error_message)))
       (io_return \<lparr>res_status = st, res_output = Str error_message\<rparr>)"

subsection \<open>Choosing the code block (lines 54 to 86)\<close>

text \<open>\<open>xs[i:0:-2]\<close> for an index \<open>i\<close> inside the list: the elements at \<open>i\<close>, \<open>i - 2\<close>, ...
  down to the last index above zero.\<close>

fun slice_down :: "'a list \<Rightarrow> nat \<Rightarrow> 'a list" where
  "slice_down xs 0 = []"
| "slice_down xs (Suc 0) = [xs ! Suc 0]"
| "slice_down xs (Suc (Suc i)) = xs ! Suc (Suc i) # slice_down xs i"

text \<open>\<open>split_three_backticks[-2:0:-2]\<close>\<close>

definition blocks_newest_first :: "'a list \<Rightarrow> 'a list" where
  "blocks_newest_first xs = (if length xs < 2 then [] else slice_down xs (length xs - 2))"

definition python_tagged :: "string \<Rightarrow> bool" where
  "python_tagged code_block =
     (startswith code_block ''python\<newline>'' \<or> startswith code_block ''python3\<newline>'')"

definition bash_tagged :: "string \<Rightarrow> bool" where
  "bash_tagged code_block =
     (startswith code_block ''bash\<newline>'' \<or> startswith code_block ''sh\<newline>''
      \<or> startswith code_block ''shell\<newline>'')"

text \<open>The \<open>for\<close> loop over the blocks; the pair is \<open>(chosen_code_block, language)\<close>.
  A Python block is recorded and the loop goes on; a shell block is recorded and ends it.\<close>

fun scan_blocks :: "string list \<Rightarrow> string option \<times> string option \<Rightarrow> string option \<times> string option" where
  "scan_blocks [] acc = acc"
| "scan_blocks (code_block # rest) acc =
     (if python_tagged code_block then scan_blocks rest (Some code_block, Some ''python'')
      else if bash_tagged code_block then (Some code_block, Some ''bash'')
      else scan_blocks rest acc)"

text \<open>The fallback on the last code block, when the loop chose nothing.\<close>

definition detect_last_block :: "string \<Rightarrow> string option \<times> string option \<Rightarrow> string option \<times> string option" where
  "detect_last_block last_code_block acc =
     (let first_line = first_line_of (strip last_code_block) in
      if startswith first_line ''#!''
           \<and> (endswith first_line ''python'' \<or> endswith first_line ''python3'')
      then (Some last_code_block, Some ''python'')
      else if startswith first_line ''#!'' \<and> endswith first_line ''sh''
      then (Some last_code_block, Some ''bash'')
      else if contains ''import '' last_code_block \<or> contains ''print('' last_code_block
                \<or> contains ''print '' last_code_block
      then (Some last_code_block, Some ''python'')
      else if contains ''echo '' last_code_block \<or> contains ''if ['' last_code_block
                \<or> contains ''; do'' last_code_block \<or> contains ''esac\<newline>'' last_code_block
      then (Some last_code_block, Some ''bash'')
      else acc)"

definition select_code_block :: "string list \<Rightarrow> string option \<times> string option" where
  "select_code_block split_three_backticks =
     (let acc = scan_blocks (blocks_newest_first split_three_backticks) (None, None) in
      if \<not> truthy (fst acc)
      then detect_last_block (split_three_backticks ! (length split_three_backticks - 2)) acc
      else acc)"

subsection \<open>Execution and report (lines 92 to 186)\<close>

text \<open>
  The inner \<open>try\<close> (lines 108 to 144). A non-zero exit raises \<open>CalledProcessError\<close>,
  which the second \<open>except\<close> clause catches; the assignments to \<open>status\<close> and
  \<open>output\<close> just before the \<open>raise\<close> are overwritten by that clause with the same values.
\<close>

definition execute_transcript :: "env \<Rightarrow> Valves \<Rightarrow> string \<Rightarrow> string \<Rightarrow> string \<Rightarrow> (status_code \<times> pyvalue) io" where
  "execute_transcript ev valves language language_title cd =
     io_except
       (io_bind (select_interpreter ev language) (\<lambda>interpreter_path.
        io_bind (run_subprocess ev valves interpreter_path cd) (\<lambda>result.
          if returncode result \<noteq> 0
          then io_raise (CalledProcessError (returncode result) [interpreter_path, ''/dev/stdin'']
                           (Some (stdout result)) (Some (stderr result)))
          else io_return (OK, Str (stdout result)))))
       (\<lambda>e. case e of
          TimeoutExpired m err \<Rightarrow>
            Some (io_then (on_emitter (fail (timeout_text valves)))
                 (io_then (tracker_set_error (timeout_text valves))
                 (io_return (TIMEOUT, bytes_value err))))
        | CalledProcessError rc cmd out err \<Rightarrow>
            Some (io_then (on_emitter (fail (language_title @ '': '' @ str_exn ev e)))
                 (io_then (tracker_set_error (language_title @ '': '' @ str_exn ev e))
                 (io_return (ERROR, text_value err))))
        | _ \<Rightarrow> None)"

text \<open>Lines 145 to 184.\<close>

definition report_transcript :: "Valves \<Rightarrow> string \<Rightarrow> status_code \<times> pyvalue \<Rightarrow> outcome io" where
  "report_transcript valves language_title r =
     (let st = fst r;
          out = (if value_truthy (snd r) then strip_value (snd r) else snd r)
      in io_then (tracker_set_output out)
        (io_then publish
        (io_then
           (if DEBUG valves
            then on_emitter (status (debug_text valves st out)
                               (if st = OK then ''complete'' else ''error'') True)
            else io_return ())
        (if st = OK then
           io_then (on_emitter (message
                      (''\<newline>\<newline>---\<newline>I executed this '' @ language_title
                         @ '' code and got:\<newline>```Output\<newline>'' @ str_value out @ ''\<newline>```\<newline>'')))
             (io_return \<lparr>res_status = st, res_output = out\<rparr>)
         else
           io_then
             (if st = TIMEOUT then
                (if value_truthy out
                 then on_emitter (message (timeout_output_text valves language_title (str_value out)))
                 else on_emitter (message (timeout_only_text valves language_title)))
              else if st = ERROR \<and> value_truthy out then
                on_emitter (message (error_output_text language_title (str_value out)))
              else if st = ERROR then
                on_emitter (message (error_only_text language_title))
              else io_raise (RuntimeError (unexplained_text st out)))
             (io_return \<lparr>res_status = st, res_output = out\<rparr>)))))"

text \<open>Lines 99 to 184, the body of the outer \<open>try\<close> once the code is stripped.\<close>

definition run_block :: "env \<Rightarrow> Valves \<Rightarrow> string \<Rightarrow> string \<Rightarrow> outcome io" where
  "run_block ev valves language cd =
     (let language_title = title language
      in io_then (create_tracker
                    (new_tracker (tracker_id ev) (language_title @ '' code block'') cd language))
        (io_then (on_emitter clear_status)
        (io_then publish
        (io_bind (execute_transcript ev valves language language_title cd) (\<lambda>r.
         report_transcript valves language_title r)))))"

text \<open>Lines 93 to 98: remove the language marker and strip.\<close>

definition block_code :: "string \<Rightarrow> string option \<Rightarrow> string" where
  "block_code chosen_code_block language =
     strip
       (if language = Some ''python''
        then removeprefix ''python'' (removeprefix ''python3'' chosen_code_block)
        else if language = Some ''bash''
        then removeprefix ''sh'' (removeprefix ''bash'' (removeprefix ''shell'' chosen_code_block))
        else chosen_code_block)"

definition action_try :: "env \<Rightarrow> Valves \<Rightarrow> string \<Rightarrow> string option \<Rightarrow> outcome io" where
  "action_try ev valves chosen_code_block language =
     (case language of
        None \<Rightarrow> io_raise (AttributeError (none_has_no ''title''))
      | Some lang \<Rightarrow> run_block ev valves lang (block_code chosen_code_block language))"

text \<open>The outer handler (lines 185 and 186): \<open>except Exception as e\<close>.\<close>

definition handler_transcript :: "env \<Rightarrow> Valves \<Rightarrow> Body \<Rightarrow> exn \<Rightarrow> outcome io option" where
  "handler_transcript ev valves body e =
     (if is_exception e
      then Some (fail_transcript ev valves body (''Unhandled exception: '' @ str_exn ev e) SANDBOX_ERROR)
      else None)"

text \<open>Lines 54 to 186, once the last message's content is split: choose the block, refuse
  when none is chosen, otherwise run the outer \<open>try\<close>.\<close>

definition run_chosen :: "env \<Rightarrow> Valves \<Rightarrow> Body \<Rightarrow> string list \<Rightarrow> outcome io" where
  "run_chosen ev valves body split_three_backticks =
     (case select_code_block split_three_backticks of
        (chosen_code_block, language) \<Rightarrow>
          (case chosen_code_block of
             None \<Rightarrow>
               fail_transcript ev valves body
                 ''Message does not contain code blocks detected as Python or Bash.''
                 SANDBOX_ERROR
           | Some block \<Rightarrow>
               if block = []
               then fail_transcript ev valves body
                      ''Message does not contain code blocks detected as Python or Bash.''
                      SANDBOX_ERROR
               else io_except (action_try ev valves block language)
                      (handler_transcript ev valves body)))"

text \<open>
  \<open>Action.action\<close>. The checks of lines 41 to 53 come before the \<open>try\<close>: the \<open>KeyError\<close>
  of \<open>last_message["role"]\<close> and \<open>last_message["content"]\<close> on a message without that
  key, and the \<open>AttributeError\<close> of \<open>.split\<close> on a content that is not a string, reach the
  caller.
\<close>

definition action :: "env \<Rightarrow> Valves \<Rightarrow> Body \<Rightarrow> sink option \<Rightarrow> (exn + outcome) \<times> run_state" where
  "action ev valves body snk =
     (let s0 = initial_state snk valves in
      if messages body = []
      then fail_transcript ev valves body ''No messages in conversation.'' INVALID_INPUT s0
      else
        let last_message = last (messages body) in
        (case msg_role last_message of
           None \<Rightarrow> io_raise (KeyError ''role'') s0
         | Some role \<Rightarrow>
             if role \<noteq> Text ''assistant''
             then fail_transcript ev valves body ''Last message was not from the AI model.''
                    INVALID_INPUT s0
             else
               (case msg_content last_message of
                  None \<Rightarrow> io_raise (KeyError ''content'') s0
                | Some (NonText ty) \<Rightarrow> io_raise (AttributeError (has_no_attribute ty ''split'')) s0
                | Some (Text content_text) \<Rightarrow>
                    let split_three_backticks = split_fence content_text in
                    if length split_three_backticks < 3 \<or> length split_three_backticks mod 2 \<noteq> 1
                    then fail_transcript ev valves body
                           ''Last message did not contain well-formed code blocks.''
                           INVALID_INPUT s0
                    else run_chosen ev valves body split_three_backticks s0)))"

section \<open>Specification-side notions\<close>

text \<open>
  The sink \<open>f\<close>, called after the history \<open>h\<close> with the events \<open>es\<close> one after the other,
  returned from each of these calls.
\<close>

fun returns_all :: "sink \<Rightarrow> event list \<Rightarrow> event list \<Rightarrow> bool" where
  "returns_all f h [] = True"
| "returns_all f h (e # es) = (f h e = None \<and> returns_all f (h @ [e]) es)"

text \<open>
  Between the emitter \<open>em\<close> and its later state \<open>em'\<close> the sink returned from every call
  that was made: the calls recorded in \<open>em'\<close> after those recorded in \<open>em\<close>. This holds
  when no sink is present.
\<close>

definition delivered :: "EventEmitter \<Rightarrow> EventEmitter \<Rightarrow> bool" where
  "delivered em em' =
     (case event_emitter em of
        None \<Rightarrow> True
      | Some f \<Rightarrow> returns_all f (calls em) (drop (length (calls em)) (calls em')))"

text \<open>
  The same between two states of a request. With \<open>s\<close> the initial state of a request and
  \<open>s'\<close> its final state, it says that every notification delivered during the request
  returned.
\<close>

definition returned_since :: "run_state \<Rightarrow> run_state \<Rightarrow> bool" where
  "returned_since s s' = delivered (emitter s) (emitter s')"

subsection \<open>Notions used in the proofs\<close>

text \<open>
  The state \<open>s'\<close> is a later state of the request that was in the state \<open>s\<close>: the same
  sink, the record of calls extended, and the tracker still there if it was.
\<close>

definition extends :: "run_state \<Rightarrow> run_state \<Rightarrow> bool" where
  "extends s s' =
     (event_emitter (emitter s') = event_emitter (emitter s)
      \<and> take (length (calls (emitter s))) (calls (emitter s')) = calls (emitter s)
      \<and> length (calls (emitter s)) \<le> length (calls (emitter s'))
      \<and> (execution_tracker s = None \<or> execution_tracker s' \<noteq> None))"

text \<open>A step that leaves a later state, from every state.\<close>

definition grows :: "'a io \<Rightarrow> bool" where
  "grows m = (\<forall>s. extends s (snd (m s)))"

text \<open>From the state \<open>s\<close> the step \<open>m\<close> ends with the result \<open>r\<close> (a value or an
  exception), provided the sink returned from every call made during the step.\<close>

definition quietly :: "'a io \<Rightarrow> run_state \<Rightarrow> exn + 'a \<Rightarrow> bool" where
  "quietly m s r = (returned_since s (snd (m s)) \<longrightarrow> fst (m s) = r)"

text \<open>The same for a step that grows and leaves a state with a tracker.\<close>

definition yields :: "'a io \<Rightarrow> run_state \<Rightarrow> exn + 'a \<Rightarrow> bool" where
  "yields m s r = (grows m \<and> execution_tracker (snd (m s)) \<noteq> None \<and> quietly m s r)"

subsection \<open>The classification of the specification\<close>

text \<open>The interpreter a language runs under, if any; both variants select it the same way
  (lines 111 to 119 of \<open>Tools._run_code\<close>, lines 109 to 115 of \<open>Action.action\<close>).\<close>

definition interpreter_for :: "env \<Rightarrow> string \<Rightarrow> string option" where
  "interpreter_for ev language =
     (if language = ''bash'' then Some ''/bin/bash''
      else if language = ''python'' \<and> sys_executable ev \<noteq> [] then Some (sys_executable ev)
      else None)"

text \<open>
  The classification of section 4.3 of the specification, in the specification's words:
  no interpreter gives \<open>SANDBOX_ERROR\<close>; exit code 0 gives \<open>OK\<close> with the captured standard
  output; a timeout gives \<open>TIMEOUT\<close> with the standard error captured so far; a non-zero
  exit gives \<open>ERROR\<close> with the captured standard error; any other exception gives
  \<open>SANDBOX_ERROR\<close> with the exception's message; an output that is present is trimmed.
  The standard error captured at a timeout is a \<open>bytes\<close> value.
\<close>

definition classified_outcome :: "env \<Rightarrow> Valves \<Rightarrow> string \<Rightarrow> string \<Rightarrow> outcome" where
  "classified_outcome ev valves language cd =
     (case interpreter_for ev language of
        None \<Rightarrow>
          \<lparr>res_status = SANDBOX_ERROR,
           res_output = Str (''Unhandled exception: Cannot find interpreter for language: '' @ language)\<rparr>
      | Some p \<Rightarrow>
          (case subprocess_run ev [p, ''/dev/stdin''] (cd @ [newline]) (MAX_RUNTIME_SECONDS valves) of
             Completed result \<Rightarrow>
               if returncode result = 0
               then \<lparr>res_status = OK, res_output = Str (strip (stdout result))\<rparr>
               else \<lparr>res_status = ERROR, res_output = Str (strip (stderr result))\<rparr>
           | TimedOut m err \<Rightarrow> \<lparr>res_status = TIMEOUT, res_output = strip_value (bytes_value err)\<rparr>
           | Failed m \<Rightarrow>
               \<lparr>res_status = SANDBOX_ERROR, res_output = Str (''Unhandled exception: '' @ m)\<rparr>))"

text \<open>The same classification before the outer handler: what the body of the outer
  \<open>try\<close> returns or raises when the sink returns from every call.\<close>

definition body_result :: "env \<Rightarrow> Valves \<Rightarrow> string \<Rightarrow> string \<Rightarrow> exn + outcome" where
  "body_result ev valves language cd =
     (case interpreter_for ev language of
        None \<Rightarrow> Inl (RuntimeError (''Cannot find interpreter for language: '' @ language))
      | Some p \<Rightarrow>
          (case subprocess_run ev [p, ''/dev/stdin''] (cd @ [newline]) (MAX_RUNTIME_SECONDS valves) of
             Completed result \<Rightarrow>
               Inr (if returncode result = 0
                    then \<lparr>res_status = OK, res_output = Str (strip (stdout result))\<rparr>
                    else \<lparr>res_status = ERROR, res_output = Str (strip (stderr result))\<rparr>)
           | TimedOut m err \<Rightarrow> Inr \<lparr>res_status = TIMEOUT, res_output = strip_value (bytes_value err)\<rparr>
           | Failed m \<Rightarrow> Inl (OtherException m)))"

section \<open>Usable transcripts and example inputs\<close>


text \<open>Concrete inputs for the examples: an environment whose subprocess always ends the
  same way, the default settings, and a transcript with one Python block.\<close>

definition example_env :: "proc_result \<Rightarrow> env" where
  "example_env r =
     \<lparr>sys_executable = ''/usr/bin/python3'', tracker_id = ''1'',
      subprocess_run = (\<lambda>cmd inp t. r),
      str_CalledProcessError = (\<lambda>rc cmd. ''Command returned non-zero exit status''),
      str_body = (\<lambda>b. ''{}'')\<rparr>"

definition example_valves :: Valves where
  "example_valves = \<lparr>MAX_RUNTIME_SECONDS = 30, DEBUG = False\<rparr>"

definition example_body :: Body where
  "example_body =
     \<lparr>messages = [\<lparr>msg_role = Some (Text ''assistant''),
                   msg_content = Some (Text (fence @ ''python\<newline>print(1+1)\<newline>'' @ fence))\<rparr>]\<rparr>"

text \<open>Sinks for the examples: one that returns from every call, one whose awaited call is
  cancelled (\<open>asyncio.CancelledError\<close> is not a subclass of \<open>Exception\<close>), one that
  raises on message events only, and one that raises on the first status event it is
  called with and returns from every other call.\<close>

definition returning_sink :: sink where
  "returning_sink = (\<lambda>h e. None)"



fun is_status :: "event \<Rightarrow> bool" where
  "is_status (Event typ dat) = (typ = ''status'')"


definition first_status_raising_sink :: sink where
  "first_status_raising_sink =
     (\<lambda>h e. if is_status e \<and> \<not> list_ex is_status h
            then Some (OtherException ''connection closed'') else None)"


section \<open>Properties of the string operations\<close>

lemma dropWhile_shrinks: "dropWhile P s = s \<or> length (dropWhile P s) < length s"
  by (cases s) (auto simp: length_dropWhile_le less_Suc_eq_le)

lemma rev_dropWhile_shrinks:
  "rev (dropWhile P (rev s)) = s \<or> length (rev (dropWhile P (rev s))) < length s"
  using dropWhile_shrinks [of P "rev s"] by (auto simp: rev_swap)

text \<open>Two steps that each return their argument or something shorter compose to such a
  step, and the composition returns its argument only if both steps do.\<close>

lemma comp_shrinks:
  assumes "\<And>t. f t = t \<or> length (f t) < length t"
    and "\<And>t. g t = t \<or> length (g t) < length t"
  shows "g (f s) = s \<or> length (g (f s)) < length s"
  using assms(1) [of s] assms(2) [of "f s"] by auto

lemma comp_fixed:
  assumes "\<And>t. f t = t \<or> length (f t) < length t"
    and "\<And>t. g t = t \<or> length (g t) < length t"
    and "g (f s) = s"
  shows "f s = s \<and> g s = s"
  using assms(1) [of s] assms(2) [of "f s"] assms(3) by auto

lemma lstrip_shrinks: "lstrip s = s \<or> length (lstrip s) < length s"
  unfolding lstrip_def by (rule dropWhile_shrinks)

lemma rstrip_shrinks: "rstrip s = s \<or> length (rstrip s) < length s"
  unfolding rstrip_def by (rule rev_dropWhile_shrinks)

lemma strip_shrinks: "strip s = s \<or> length (strip s) < length s"
  unfolding strip_def by (rule comp_shrinks [OF lstrip_shrinks rstrip_shrinks])

lemma strip_chars_shrinks: "strip_chars cs s = s \<or> length (strip_chars cs s) < length s"
  unfolding strip_chars_def by (rule comp_shrinks [OF dropWhile_shrinks rev_dropWhile_shrinks])

lemma removeprefix_shrinks: "removeprefix p s = s \<or> length (removeprefix p s) < length s"
proof (cases "startswith s p \<and> p \<noteq> []")
  case True
  then have "s \<noteq> []" by (auto simp: startswith_def)
  with True show ?thesis by (auto simp: removeprefix_def)
next
  case False
  then show ?thesis by (auto simp: removeprefix_def)
qed

lemma removesuffix_shrinks: "removesuffix p s = s \<or> length (removesuffix p s) < length s"
  by (auto simp: removesuffix_def endswith_def)

lemma dropWhile_fixed: "dropWhile P s = s \<longleftrightarrow> s = [] \<or> \<not> P (hd s)"
proof (cases s)
  case (Cons a t)
  have "length (dropWhile P t) \<le> length t" by (rule length_dropWhile_le)
  then have "dropWhile P t \<noteq> a # t" by auto
  with Cons show ?thesis by auto
qed simp

lemma rev_dropWhile_fixed:
  "rev (dropWhile P (rev s)) = s \<longleftrightarrow> s = [] \<or> \<not> P (last s)"
  using dropWhile_fixed [of P "rev s"] by (auto simp: rev_swap hd_rev)

lemma strip_chars_fixed:
  "strip_chars cs s = s \<longleftrightarrow> s = [] \<or> (hd s \<notin> set cs \<and> last s \<notin> set cs)"
proof
  assume "strip_chars cs s = s"
  then have "dropWhile (\<lambda>c. c \<in> set cs) s = s \<and> rev (dropWhile (\<lambda>c. c \<in> set cs) (rev s)) = s"
    unfolding strip_chars_def
    by (rule comp_fixed [OF dropWhile_shrinks rev_dropWhile_shrinks])
  then show "s = [] \<or> (hd s \<notin> set cs \<and> last s \<notin> set cs)"
    by (auto simp: dropWhile_fixed rev_dropWhile_fixed)
next
  assume a: "s = [] \<or> (hd s \<notin> set cs \<and> last s \<notin> set cs)"
  then have 1: "dropWhile (\<lambda>c. c \<in> set cs) s = s" by (auto simp: dropWhile_fixed)
  from a have "rev (dropWhile (\<lambda>c. c \<in> set cs) (rev s)) = s" by (auto simp: rev_dropWhile_fixed)
  with 1 show "strip_chars cs s = s" by (simp add: strip_chars_def)
qed

lemma strip_fixed:
  "strip s = s \<longleftrightarrow> s = [] \<or> (\<not> isspace (hd s) \<and> \<not> isspace (last s))"
proof
  assume "strip s = s"
  then have "lstrip s = s \<and> rstrip s = s"
    unfolding strip_def by (rule comp_fixed [OF lstrip_shrinks rstrip_shrinks])
  then show "s = [] \<or> (\<not> isspace (hd s) \<and> \<not> isspace (last s))"
    by (auto simp: lstrip_def rstrip_def dropWhile_fixed rev_dropWhile_fixed)
next
  assume a: "s = [] \<or> (\<not> isspace (hd s) \<and> \<not> isspace (last s))"
  then have 1: "lstrip s = s" by (auto simp: lstrip_def dropWhile_fixed)
  from a have "rstrip s = s" by (auto simp: rstrip_def rev_dropWhile_fixed)
  with 1 show "strip s = s" by (simp add: strip_def)
qed

lemma strip_stripped: "strip (strip s) = strip s"
proof -
  let ?t = "dropWhile isspace s"
  have 1: "rstrip ?t = [] \<or> \<not> isspace (last (rstrip ?t))"
    unfolding rstrip_def
    by (metis hd_dropWhile last_rev rev_is_Nil_conv)
  have 2: "rstrip ?t = [] \<or> \<not> isspace (hd (rstrip ?t))"
  proof (cases "rstrip ?t = []")
    case False
    have "rstrip [] = []" by (simp add: rstrip_def)
    with False have "?t \<noteq> []" by metis
    then have h: "\<not> isspace (hd ?t)" by (rule hd_dropWhile)
    have "\<exists>zs. ?t = rstrip ?t @ zs"
      unfolding rstrip_def
      by (metis rev_append rev_rev_ident takeWhile_dropWhile_id)
    then obtain zs where "?t = rstrip ?t @ zs" ..
    with False have "hd ?t = hd (rstrip ?t)" by (metis hd_append2)
    with h show ?thesis by simp
  qed simp
  have 3: "strip s = rstrip ?t" by (simp add: strip_def lstrip_def)
  from 1 2 have "strip (rstrip ?t) = rstrip ?t"
    using strip_fixed [of "rstrip ?t"] by blast
  with 3 show ?thesis by simp
qed

lemma startswith_single: "startswith s [c] \<longleftrightarrow> s \<noteq> [] \<and> hd s = c"
  by (cases s) (auto simp: startswith_def)

lemma endswith_single: "endswith s [c] \<longleftrightarrow> s \<noteq> [] \<and> last s = c"
proof (cases "s = []")
  case False
  then have "drop (length s - 1) s = [last s]"
    by (metis append_butlast_last_id append_eq_conv_conj length_butlast)
  with False show ?thesis by (auto simp: endswith_def Suc_le_eq)
qed (simp add: endswith_def)

section \<open>Normalisation and idempotence\<close>

lemma normalize_fixed_imp:
  assumes "normalize l y = y"
  shows "strip_chars [backtick] y = y"
proof -
  let ?f = "\<lambda>t. strip (removesuffix fence (removeprefix fence (removeprefix (fence @ l) (strip t))))"
  let ?g = "\<lambda>t. strip (strip_chars [backtick] t)"
  have a: "removeprefix (fence @ l) (strip t) = t
      \<or> length (removeprefix (fence @ l) (strip t)) < length t" for t
    by (rule comp_shrinks [OF strip_shrinks removeprefix_shrinks])
  have b: "removeprefix fence (removeprefix (fence @ l) (strip t)) = t
      \<or> length (removeprefix fence (removeprefix (fence @ l) (strip t))) < length t" for t
    by (rule comp_shrinks [where g = "removeprefix fence", OF a removeprefix_shrinks])
  have c: "removesuffix fence (removeprefix fence (removeprefix (fence @ l) (strip t))) = t
      \<or> length (removesuffix fence (removeprefix fence (removeprefix (fence @ l) (strip t)))) < length t" for t
    by (rule comp_shrinks [where g = "removesuffix fence", OF b removesuffix_shrinks])
  have f: "?f t = t \<or> length (?f t) < length t" for t
    by (rule comp_shrinks [where g = strip, OF c strip_shrinks])
  have g: "?g t = t \<or> length (?g t) < length t" for t
    by (rule comp_shrinks [where g = strip, OF strip_chars_shrinks strip_shrinks])
  from assms have "?g (?f y) = y" by (simp add: normalize_def Let_def)
  then have "?f y = y \<and> ?g y = y" by (rule comp_fixed [where f = ?f and g = ?g, OF f g])
  then have "strip (strip_chars [backtick] y) = y" by simp
  then have "strip_chars [backtick] y = y \<and> strip y = y"
    by (rule comp_fixed [where f = "strip_chars [backtick]" and g = strip, OF strip_chars_shrinks strip_shrinks])
  then show ?thesis by simp
qed

lemma no_backtick_ends_fixed:
  assumes s: "strip y = y" and b: "y = [] \<or> (hd y \<noteq> backtick \<and> last y \<noteq> backtick)"
  shows "normalize l y = y"
proof -
  have 1: "removeprefix (fence @ l) y = y"
    using b by (cases y) (auto simp: removeprefix_def startswith_def fence_def)
  have 2: "removeprefix fence y = y"
    using b by (cases y) (auto simp: removeprefix_def startswith_def fence_def)
  have 3: "removesuffix fence y = y"
  proof (cases "endswith y fence")
    case True
    then have d: "drop (length y - length fence) y = fence"
      by (simp add: endswith_def)
    have "y = take (length y - length fence) y @ drop (length y - length fence) y" by simp
    with d obtain p where p: "y = p @ fence" by metis
    have "y \<noteq> []" and "last y = backtick"
      by (simp_all add: p fence_def)
    with b show ?thesis by (auto simp: fence_def)
  next
    case False
    then show ?thesis by (simp add: removesuffix_def)
  qed
  have 4: "strip_chars [backtick] y = y"
    using b by (auto simp: strip_chars_fixed)
  show ?thesis by (simp add: normalize_def Let_def s 1 2 3 4)
qed

lemma strip_normalize: "strip (normalize l x) = normalize l x"
  by (simp add: normalize_def Let_def strip_stripped)

text \<open>
  C6, as the code has it. Normalising twice can differ from normalising once: the last
  step strips backticks and then whitespace, which can uncover further backticks. A second
  pass changes nothing exactly when the first result neither begins nor ends with a
  backtick.
\<close>

theorem normalize_idempotent_iff:
  "normalize l (normalize l x) = normalize l x \<longleftrightarrow>
     \<not> startswith (normalize l x) [backtick] \<and> \<not> endswith (normalize l x) [backtick]"
proof
  assume "normalize l (normalize l x) = normalize l x"
  then have "strip_chars [backtick] (normalize l x) = normalize l x"
    by (rule normalize_fixed_imp)
  then show "\<not> startswith (normalize l x) [backtick] \<and> \<not> endswith (normalize l x) [backtick]"
    by (auto simp: strip_chars_fixed startswith_single endswith_single)
next
  assume "\<not> startswith (normalize l x) [backtick] \<and> \<not> endswith (normalize l x) [backtick]"
  then have "normalize l x = [] \<or> (hd (normalize l x) \<noteq> backtick \<and> last (normalize l x) \<noteq> backtick)"
    by (auto simp: startswith_single endswith_single)
  with strip_normalize show "normalize l (normalize l x) = normalize l x"
    by (rule no_backtick_ends_fixed)
qed

text \<open>The amended statement at a fenced Python snippet: the result is \<open>print(1)\<close>, which a
  second pass leaves alone.\<close>

theorem normalize_idempotent_iff_witness:
  "normalize ''python'' (normalize ''python'' (fence @ ''python\<newline>print(1)\<newline>'' @ fence))
     = normalize ''python'' (fence @ ''python\<newline>print(1)\<newline>'' @ fence)
   \<and> normalize ''python'' (fence @ ''python\<newline>print(1)\<newline>'' @ fence) = ''print(1)''"
proof -
  have v: "normalize ''python'' (fence @ ''python\<newline>print(1)\<newline>'' @ fence) = ''print(1)''"
    by code_simp
  have "\<not> startswith ''print(1)'' [backtick] \<and> \<not> endswith ''print(1)'' [backtick]"
    by code_simp
  with normalize_idempotent_iff [of "''python''" "fence @ ''python\<newline>print(1)\<newline>'' @ fence"] v
  show ?thesis by simp
qed

text \<open>C6 as stated fails: for the text backtick, space, backtick, \<open>x\<close> the first pass gives
  backtick, \<open>x\<close> and the second gives \<open>x\<close>.\<close>

theorem normalize_not_idempotent:
  "normalize ''python'' (normalize ''python'' [backtick, CHR '' '', backtick, CHR ''x''])
     \<noteq> normalize ''python'' [backtick, CHR '' '', backtick, CHR ''x'']"
  by code_simp

section \<open>The event emitter\<close>

lemma call_sink_once:
  "call_sink (Suc 0) snk ev em = (snk (calls em) ev, em\<lparr>calls := calls em @ [ev]\<rparr>)"
  by (simp split: option.splits)

lemma call_sink_twice:
  "snk (calls em) ev = None \<Longrightarrow>
     call_sink 2 snk ev em = (snk (calls em @ [ev]) ev, em\<lparr>calls := calls em @ [ev, ev]\<rparr>)"
  by (simp add: numeral_2_eq_2 split: option.splits)

text \<open>
  C7. With a sink present, a message notification is one invocation of the sink. A
  code-execution (citation) notification is two invocations with the same event, whatever
  the tracker holds, once the first invocation returns; the sink's own failure is the only
  thing that stops the repeat.
\<close>

theorem notification_counts:
  "event_emitter em = Some snk \<Longrightarrow>
     calls (snd (message txt em)) = calls em @ [Event ''message'' (MessageData txt)]
     \<and> (snk (calls em) (Event ''citation'' (CitationData (citation_data t))) = None \<longrightarrow>
          calls (snd (code_execution t em)) =
            calls em @ [Event ''citation'' (CitationData (citation_data t)),
                        Event ''citation'' (CitationData (citation_data t))])"
  by (simp add: message_def code_execution_def emit_def numeral_2_eq_2 split: option.splits)

text \<open>C7 at a sink that accepts every event: one message event, two citation events.\<close>

theorem notification_counts_witness:
  "calls (snd (message ''done'' (new_emitter (Some (\<lambda>h e. None)) False)))
     = [Event ''message'' (MessageData ''done'')]
   \<and> calls (snd (code_execution (new_tracker ''7'' ''Bash tool execution'' ''ls'' ''bash'')
                  (new_emitter (Some (\<lambda>h e. None)) False)))
     = [Event ''citation'' (CitationData (citation_data (new_tracker ''7'' ''Bash tool execution'' ''ls'' ''bash''))),
        Event ''citation'' (CitationData (citation_data (new_tracker ''7'' ''Bash tool execution'' ''ls'' ''bash'')))]"
  using notification_counts [of "new_emitter (Some (\<lambda>h e. None)) False" "\<lambda>h e. None" "''done''"
      "new_tracker ''7'' ''Bash tool execution'' ''ls'' ''bash''"]
  by (simp add: new_emitter_def)

text \<open>Calling the sink changes nothing of the emitter but the record of calls.\<close>

lemma call_sink_fields:
  "event_emitter (snd (call_sink n snk ev em)) = event_emitter em
   \<and> emitted_status (snd (call_sink n snk ev em)) = emitted_status em
   \<and> status_prefix (snd (call_sink n snk ev em)) = status_prefix em
   \<and> debug (snd (call_sink n snk ev em)) = debug em"
  by (induction n arbitrary: em) (auto split: option.splits)

lemma emit_fields:
  "event_emitter (snd (emit typ dat twice em)) = event_emitter em
   \<and> emitted_status (snd (emit typ dat twice em)) = emitted_status em"
  by (simp add: emit_def call_sink_fields split: option.splits)

text \<open>
  C8. Without an emitted status, \<open>clear_status\<close> returns at once: no sink invocation, the
  emitter unchanged. A call of \<open>status\<close> sets the flag. With the flag set,
  \<open>clear_status\<close> resets it and emits the empty "complete" status with \<open>twice=True\<close>:
  nothing is delivered when no sink is present, and a present sink that accepts the first
  delivery is invoked twice with that event.
\<close>

theorem clear_status_behaviour:
  "(\<not> emitted_status em \<longrightarrow> clear_status em = (None, em))
   \<and> emitted_status (snd (status description st done em))
   \<and> (emitted_status em \<longrightarrow>
        \<not> emitted_status (snd (clear_status em))
        \<and> (event_emitter em = None \<longrightarrow> calls (snd (clear_status em)) = calls em)
        \<and> (\<forall>snk. event_emitter em = Some snk
               \<and> snk (calls em) (Event ''status'' (StatusData ''complete'' [] True)) = None \<longrightarrow>
             calls (snd (clear_status em)) =
               calls em @ [Event ''status'' (StatusData ''complete'' [] True),
                           Event ''status'' (StatusData ''complete'' [] True)]))"
proof -
  have 1: "\<not> emitted_status em \<longrightarrow> clear_status em = (None, em)"
    by (simp add: clear_status_def)
  have 2: "emitted_status (snd (status description st done em))"
    by (simp add: status_def Let_def emit_fields)
  have 3: "\<not> emitted_status (snd (clear_status em))"
    by (simp add: clear_status_def emit_fields)
  have 4: "event_emitter em = None \<longrightarrow> calls (snd (clear_status em)) = calls em"
    by (simp add: clear_status_def emit_def)
  have 5: "emitted_status em \<longrightarrow> (\<forall>snk. event_emitter em = Some snk
               \<and> snk (calls em) (Event ''status'' (StatusData ''complete'' [] True)) = None \<longrightarrow>
             calls (snd (clear_status em)) =
               calls em @ [Event ''status'' (StatusData ''complete'' [] True),
                           Event ''status'' (StatusData ''complete'' [] True)])"
    by (simp add: clear_status_def emit_def numeral_2_eq_2 split: option.splits)
  from 1 2 3 4 5 show ?thesis by blast
qed

text \<open>C8 on a fresh emitter, and on the same emitter after one status notification.\<close>

theorem clear_status_behaviour_witness:
  "clear_status (new_emitter (Some (\<lambda>h e. None)) False)
     = (None, new_emitter (Some (\<lambda>h e. None)) False)
   \<and> emitted_status (snd (status ''Working'' ''in_progress'' False (new_emitter (Some (\<lambda>h e. None)) False)))
   \<and> \<not> emitted_status (snd (clear_status
         (snd (status ''Working'' ''in_progress'' False (new_emitter (Some (\<lambda>h e. None)) False)))))
   \<and> calls (snd (clear_status
         (snd (status ''Working'' ''in_progress'' False (new_emitter (Some (\<lambda>h e. None)) False)))))
       = [Event ''status'' (StatusData ''in_progress'' ''Working'' False),
          Event ''status'' (StatusData ''in_progress'' ''Working'' False),
          Event ''status'' (StatusData ''complete'' [] True),
          Event ''status'' (StatusData ''complete'' [] True)]"
proof -
  let ?em0 = "new_emitter (Some (\<lambda>h e. None)) False"
  let ?em1 = "snd (status ''Working'' ''in_progress'' False ?em0)"
  have e1: "?em1 = \<lparr>event_emitter = Some (\<lambda>h e. None), debug = False, status_prefix = None,
      emitted_status = True,
      calls = [Event ''status'' (StatusData ''in_progress'' ''Working'' False),
               Event ''status'' (StatusData ''in_progress'' ''Working'' False)]\<rparr>"
    by (simp add: status_def Let_def new_emitter_def emit_def numeral_2_eq_2)
  have a: "clear_status ?em0 = (None, ?em0)"
    using clear_status_behaviour [of ?em0] by (simp add: new_emitter_def)
  have b: "emitted_status ?em1 \<and> \<not> emitted_status (snd (clear_status ?em1))
      \<and> calls (snd (clear_status ?em1)) = calls ?em1 @ [Event ''status'' (StatusData ''complete'' [] True),
                           Event ''status'' (StatusData ''complete'' [] True)]"
    using clear_status_behaviour [of ?em1 "''Working''" "''in_progress''" False] unfolding e1 by simp
  from a b show ?thesis unfolding e1 by simp
qed

section \<open>Choosing the code block\<close>

text \<open>
  What the loop over the blocks computes. The list holds the blocks newest first. If some
  block is shell-tagged, the first such block in the list (the newest) is chosen, whatever
  Python blocks came before it. If none is, every Python-tagged block overwrites the
  choice, so the last one in the list (the oldest) stays.
\<close>

lemma tags_disjoint: "python_tagged b \<Longrightarrow> \<not> bash_tagged b"
  by (cases b) (auto simp: python_tagged_def bash_tagged_def startswith_def)

lemma scan_blocks_shell:
  "find bash_tagged bs = Some b \<Longrightarrow> scan_blocks bs acc = (Some b, Some ''bash'')"
  by (induction bs arbitrary: acc) (auto simp: tags_disjoint split: if_splits)

lemma find_app:
  "find P (xs @ ys) = (case find P xs of None \<Rightarrow> find P ys | Some x \<Rightarrow> Some x)"
  by (induction xs) auto

lemma scan_blocks_python_only:
  "\<forall>b \<in> set bs. \<not> bash_tagged b \<Longrightarrow>
     scan_blocks bs acc =
       (case find python_tagged (rev bs) of None \<Rightarrow> acc | Some b \<Rightarrow> (Some b, Some ''python''))"
proof (induction bs arbitrary: acc)
  case Nil
  then show ?case by simp
next
  case (Cons a bs)
  then show ?case
    by (auto simp: find_app split: option.splits)
qed

text \<open>
  C5 at a message with two Python-tagged blocks and no shell block: the block chosen is
  the older one, \<open>print(1)\<close>, not the newest, \<open>print(2)\<close>.
\<close>

theorem select_code_block_oldest_python:
  "select_code_block
     (split_fence (fence @ ''python\<newline>print(1)\<newline>'' @ fence @ '' then '' @ fence @ ''python\<newline>print(2)\<newline>'' @ fence))
   = (Some ''python\<newline>print(1)\<newline>'', Some ''python'')"
  by code_simp

section \<open>Input validation of the transcript variant\<close>

text \<open>
  C4 at a well-formed message whose only code block carries no tag, no shebang line and
  none of the tokens the fallback looks for: the request is refused with the status
  \<open>SANDBOX_ERROR\<close>, the default of \<open>_fail\<close>, not with \<open>INVALID_INPUT\<close>.
\<close>

theorem no_code_block_is_sandbox_error:
  "fst (action ev valves
          \<lparr>messages = [\<lparr>msg_role = Some (Text ''assistant''),
                        msg_content = Some (Text (fence @ ''\<newline>hello\<newline>'' @ fence))\<rparr>]\<rparr> None)
   = Inr \<lparr>res_status = SANDBOX_ERROR,
          res_output = Str ''Message does not contain code blocks detected as Python or Bash.''\<rparr>"
proof -
  define body_text where "body_text = fence @ ''\<newline>hello\<newline>'' @ fence"
  have s: "split_fence body_text = [[], ''\<newline>hello\<newline>'', []]"
    unfolding body_text_def by code_simp
  have c: "select_code_block [[], ''\<newline>hello\<newline>'', []] = (None, None)"
    by code_simp
  have "fst (action ev valves \<lparr>messages = [\<lparr>msg_role = Some (Text ''assistant''),
                        msg_content = Some (Text body_text)\<rparr>]\<rparr> None)
   = Inr \<lparr>res_status = SANDBOX_ERROR,
          res_output = Str ''Message does not contain code blocks detected as Python or Bash.''\<rparr>"
    by (simp add: action_def run_chosen_def Let_def s c fail_transcript_def io_then_def io_bind_def
        io_return_def on_emitter_def fail_def status_def emit_def initial_state_def new_emitter_def)
  then show ?thesis unfolding body_text_def .
qed
section \<open>Requests whose notifications are delivered\<close>

lemma returns_all_append:
  "returns_all f h (xs @ ys) = (returns_all f h xs \<and> returns_all f (h @ xs) ys)"
  by (induction xs arbitrary: h) auto

lemma extendsI:
  "event_emitter (emitter s') = event_emitter (emitter s) \<Longrightarrow>
   calls (emitter s') = calls (emitter s) @ k \<Longrightarrow>
   execution_tracker s = None \<or> execution_tracker s' \<noteq> None \<Longrightarrow> extends s s'"
  by (simp add: extends_def)

lemma extends_calls: "extends s s' \<Longrightarrow> \<exists>k. calls (emitter s') = calls (emitter s) @ k"
  by (metis extends_def append_take_drop_id)

lemma extends_refl: "extends s s"
  by (auto simp: extends_def)

lemma extends_trans:
  assumes "extends s s1" and "extends s1 s2"
  shows "extends s s2"
proof -
  obtain k1 where k1: "calls (emitter s1) = calls (emitter s) @ k1"
    using extends_calls [OF assms(1)] by blast
  obtain k2 where k2: "calls (emitter s2) = calls (emitter s1) @ k2"
    using extends_calls [OF assms(2)] by blast
  show ?thesis
    using assms by (intro extendsI [where k = "k1 @ k2"]) (auto simp: extends_def k1 k2)
qed

lemma extends_tracker: "extends s s' \<Longrightarrow> execution_tracker s \<noteq> None \<Longrightarrow> execution_tracker s' \<noteq> None"
  by (auto simp: extends_def)

lemma returned_since_trans:
  assumes "extends s s1" and "extends s1 s2"
  shows "returned_since s s2 \<longleftrightarrow> returned_since s s1 \<and> returned_since s1 s2"
proof -
  obtain k1 where k1: "calls (emitter s1) = calls (emitter s) @ k1"
    using extends_calls [OF assms(1)] by blast
  obtain k2 where k2: "calls (emitter s2) = calls (emitter s1) @ k2"
    using extends_calls [OF assms(2)] by blast
  have e: "event_emitter (emitter s1) = event_emitter (emitter s)"
    using assms(1) by (simp add: extends_def)
  show ?thesis
    by (cases "event_emitter (emitter s)")
      (simp_all add: returned_since_def delivered_def e k1 k2 returns_all_append)
qed

lemma grows_extends: "grows m \<Longrightarrow> extends s (snd (m s))"
  by (simp add: grows_def)

lemma grows_return: "grows (io_return x)"
  by (simp add: grows_def io_return_def extends_refl)

lemma grows_raise: "grows (io_raise e)"
  by (simp add: grows_def io_raise_def extends_refl)

lemma grows_compose:
  assumes "grows m" and "\<And>r1. grows (K r1)"
  shows "grows (\<lambda>s. case m s of (r1, s1) \<Rightarrow> K r1 s1)"
  unfolding grows_def
proof
  fix s
  obtain r1 s1 where ms: "m s = (r1, s1)" by (cases "m s")
  have "extends s s1" using grows_extends [OF assms(1), of s] ms by simp
  moreover have "extends s1 (snd (K r1 s1))" by (rule grows_extends [OF assms(2)])
  ultimately show "extends s (snd (case m s of (r1, s1) \<Rightarrow> K r1 s1))"
    unfolding ms by (auto intro: extends_trans)
qed

lemma io_bind_compose:
  "io_bind m f = (\<lambda>s. case m s of (r1, s1) \<Rightarrow> (case r1 of Inl e \<Rightarrow> io_raise e | Inr x \<Rightarrow> f x) s1)"
  by (rule ext) (simp add: io_bind_def io_raise_def split: prod.splits sum.splits)

lemma io_except_compose:
  "io_except m h = (\<lambda>s. case m s of (r1, s1) \<Rightarrow>
      (case r1 of Inl e \<Rightarrow> (case h e of None \<Rightarrow> io_raise e | Some k \<Rightarrow> k) | Inr x \<Rightarrow> io_return x) s1)"
  by (rule ext) (simp add: io_except_def io_raise_def io_return_def split: prod.splits sum.splits option.splits)

lemma grows_bind: "grows m \<Longrightarrow> (\<And>x. grows (f x)) \<Longrightarrow> grows (io_bind m f)"
  unfolding io_bind_compose
  by (rule grows_compose) (auto simp: grows_raise split: sum.splits)

lemma grows_then: "grows m \<Longrightarrow> grows k \<Longrightarrow> grows (io_then m k)"
  unfolding io_then_def by (rule grows_bind)

lemma grows_except: "grows m \<Longrightarrow> (\<And>e k. h e = Some k \<Longrightarrow> grows k) \<Longrightarrow> grows (io_except m h)"
  unfolding io_except_compose
  by (rule grows_compose) (auto simp: grows_raise grows_return split: sum.splits option.splits)

lemma grows_if: "grows a \<Longrightarrow> grows b \<Longrightarrow> grows (if c then a else b)"
  by simp

text \<open>The methods of the emitter keep the sink and extend the record of calls; a method
  returns when the sink returned from the calls it made.\<close>

lemma call_sink_calls: "\<exists>k. calls (snd (call_sink n snk ev em)) = calls em @ k"
proof (induction n arbitrary: em)
  case 0
  then show ?case by simp
next
  case (Suc n)
  obtain k where "calls (snd (call_sink n snk ev (em\<lparr>calls := calls em @ [ev]\<rparr>))) = (calls em @ [ev]) @ k"
    using Suc [of "em\<lparr>calls := calls em @ [ev]\<rparr>"] by auto
  then show ?case by (auto split: option.splits)
qed

lemma call_sink_quiet:
  "returns_all snk (calls em) (drop (length (calls em)) (calls (snd (call_sink n snk ev em))))
     \<Longrightarrow> fst (call_sink n snk ev em) = None"
proof (induction n arbitrary: em)
  case 0
  then show ?case by simp
next
  case (Suc n)
  let ?em = "em\<lparr>calls := calls em @ [ev]\<rparr>"
  show ?case
  proof (cases "snk (calls em) ev")
    case (Some e)
    with Suc.prems show ?thesis by simp
  next
    case None
    obtain k where k: "calls (snd (call_sink n snk ev ?em)) = calls ?em @ k"
      using call_sink_calls by blast
    from Suc.prems None have "returns_all snk (calls em) (drop (length (calls em)) (calls (snd (call_sink n snk ev ?em))))"
      by simp
    then have "returns_all snk (calls ?em) (drop (length (calls ?em)) (calls (snd (call_sink n snk ev ?em))))"
      unfolding k by simp
    then have "fst (call_sink n snk ev ?em) = None" by (rule Suc.IH)
    with None show ?thesis by simp
  qed
qed

lemma emit_calls: "\<exists>k. calls (snd (emit ty dat twice em)) = calls em @ k"
  using call_sink_calls by (auto simp: emit_def split: option.splits)

lemma emit_quiet: "delivered em (snd (emit ty dat twice em)) \<Longrightarrow> fst (emit ty dat twice em) = None"
  using call_sink_quiet [of _ em "if twice then 2 else 1" "Event ty dat"]
  by (cases "event_emitter em") (simp_all add: emit_def delivered_def del: call_sink.simps)

lemma delivered_flag [simp]: "delivered (em\<lparr>emitted_status := b\<rparr>) em' = delivered em em'"
  by (simp add: delivered_def split: option.splits)

lemma methods_sink:
  "event_emitter (snd (status d st dn em)) = event_emitter em"
  "event_emitter (snd (fail d em)) = event_emitter em"
  "event_emitter (snd (clear_status em)) = event_emitter em"
  "event_emitter (snd (message m em)) = event_emitter em"
  "event_emitter (snd (code_execution t em)) = event_emitter em"
  by (simp_all add: status_def fail_def clear_status_def message_def code_execution_def Let_def
      emit_fields)

lemma methods_calls:
  "\<exists>k. calls (snd (status d st dn em)) = calls em @ k"
  "\<exists>k. calls (snd (fail d em)) = calls em @ k"
  "\<exists>k. calls (snd (clear_status em)) = calls em @ k"
  "\<exists>k. calls (snd (message m em)) = calls em @ k"
  "\<exists>k. calls (snd (code_execution t em)) = calls em @ k"
  using emit_calls [of _ _ _ "em\<lparr>emitted_status := True\<rparr>"]
    emit_calls [of _ _ _ "em\<lparr>emitted_status := False\<rparr>"] emit_calls [of _ _ _ em]
  by (simp_all add: status_def fail_def clear_status_def message_def code_execution_def Let_def)

lemma methods_quiet:
  "delivered em (snd (status d st dn em)) \<Longrightarrow> fst (status d st dn em) = None"
  "delivered em (snd (fail d em)) \<Longrightarrow> fst (fail d em) = None"
  "delivered em (snd (clear_status em)) \<Longrightarrow> fst (clear_status em) = None"
  "delivered em (snd (message m em)) \<Longrightarrow> fst (message m em) = None"
  "delivered em (snd (code_execution t em)) \<Longrightarrow> fst (code_execution t em) = None"
  using emit_quiet [of "em\<lparr>emitted_status := True\<rparr>"] emit_quiet [of "em\<lparr>emitted_status := False\<rparr>"]
    emit_quiet [of em]
  by (auto simp: status_def fail_def clear_status_def message_def code_execution_def Let_def
      split: if_splits)

lemma grows_on_emitter:
  assumes "\<And>em. event_emitter (snd (f em)) = event_emitter em"
    and "\<And>em. \<exists>k. calls (snd (f em)) = calls em @ k"
  shows "grows (on_emitter f)"
  unfolding grows_def
proof
  fix s :: run_state
  obtain k where "calls (snd (f (emitter s))) = calls (emitter s) @ k"
    using assms(2) by blast
  then show "extends s (snd (on_emitter f s))"
    using assms(1) [of "emitter s"]
    by (cases "f (emitter s)") (auto simp: on_emitter_def intro!: extendsI split: option.splits)
qed

lemma quietly_on_emitter:
  assumes "\<And>em. delivered em (snd (f em)) \<Longrightarrow> fst (f em) = None"
  shows "quietly (on_emitter f) s (Inr ())"
  using assms [of "emitter s"]
  by (cases "f (emitter s)") (auto simp: quietly_def returned_since_def on_emitter_def split: option.splits)

lemma grows_methods:
  "grows (on_emitter (status d st dn))" "grows (on_emitter (fail d))"
  "grows (on_emitter clear_status)" "grows (on_emitter (message m))"
  "grows (on_emitter (code_execution t))"
  by (rule grows_on_emitter, rule methods_sink, rule methods_calls)+

lemma quietly_methods:
  "quietly (on_emitter (status d st dn)) s (Inr ())" "quietly (on_emitter (fail d)) s (Inr ())"
  "quietly (on_emitter clear_status) s (Inr ())" "quietly (on_emitter (message m)) s (Inr ())"
  "quietly (on_emitter (code_execution t)) s (Inr ())"
  by (rule quietly_on_emitter, erule methods_quiet)+

lemma grows_publish: "grows publish"
  unfolding grows_def
proof
  fix s :: run_state
  show "extends s (snd (publish s))"
    using grows_extends [OF grows_methods(5), where s = s]
    by (cases "execution_tracker s") (simp_all add: publish_def extends_refl)
qed

lemma grows_set_error: "grows (tracker_set_error e)"
  by (auto simp: grows_def tracker_set_error_def extends_def split: option.splits)

lemma grows_set_output: "grows (tracker_set_output out)"
  by (auto simp: grows_def tracker_set_output_def extends_def split: option.splits)

lemma grows_create_tracker: "grows (create_tracker t)"
  by (simp add: grows_def create_tracker_def extends_def)

lemmas grows_steps = grows_return grows_raise grows_methods grows_publish grows_set_error
  grows_set_output grows_create_tracker

lemmas grows_intros = grows_bind grows_then grows_if grows_steps

text \<open>Composition of steps.\<close>

lemma yieldsI:
  "grows m \<Longrightarrow> execution_tracker (snd (m s)) \<noteq> None \<Longrightarrow> quietly m s r \<Longrightarrow> yields m s r"
  by (simp add: yields_def)

lemma yields_grows: "yields m s r \<Longrightarrow> grows m"
  by (simp add: yields_def)



lemma yields_fst: "yields m s r \<Longrightarrow> returned_since s (snd (m s)) \<Longrightarrow> fst (m s) = r"
  by (simp add: yields_def quietly_def)

lemma yields_compose:
  assumes m: "yields m s a" and g: "\<And>r1. grows (K r1)"
    and k: "\<And>s'. execution_tracker s' \<noteq> None \<Longrightarrow> yields (K a) s' r"
  shows "yields (\<lambda>s. case m s of (r1, s1) \<Rightarrow> K r1 s1) s r"
proof -
  obtain r1 s1 where ms: "m s = (r1, s1)" by (cases "m s")
  from m ms have gm: "grows m" and l1: "execution_tracker s1 \<noteq> None" and qm: "quietly m s a"
    by (auto simp: yields_def)
  have e1: "extends s s1" using grows_extends [OF gm, of s] ms by simp
  have e2: "extends s1 (snd (K r1 s1))" by (rule grows_extends [OF g])
  show ?thesis
  proof (rule yieldsI)
    show "grows (\<lambda>s. case m s of (r1, s1) \<Rightarrow> K r1 s1)" by (rule grows_compose [OF gm g])
    show "execution_tracker (snd (case m s of (r1, s1) \<Rightarrow> K r1 s1)) \<noteq> None"
      unfolding ms using extends_tracker [OF e2 l1] by simp
    show "quietly (\<lambda>s. case m s of (r1, s1) \<Rightarrow> K r1 s1) s r"
      unfolding quietly_def
    proof
      assume "returned_since s (snd (case m s of (r1, s1) \<Rightarrow> K r1 s1))"
      then have "returned_since s (snd (K r1 s1))" by (simp add: ms)
      then have a: "returned_since s s1" and b: "returned_since s1 (snd (K r1 s1))"
        using returned_since_trans [OF e1 e2] by simp_all
      from qm a ms have "r1 = a" by (simp add: quietly_def)
      with b k [OF l1] have "fst (K r1 s1) = r" by (simp add: yields_def quietly_def)
      then show "fst (case m s of (r1, s1) \<Rightarrow> K r1 s1) = r" by (simp add: ms)
    qed
  qed
qed

lemma yields_return: "execution_tracker s \<noteq> None \<Longrightarrow> yields (io_return x) s (Inr x)"
  unfolding yields_def quietly_def
  by (intro conjI grows_return) (simp_all add: io_return_def)

lemma yields_raise: "execution_tracker s \<noteq> None \<Longrightarrow> yields (io_raise e) s (Inl e)"
  unfolding yields_def quietly_def
  by (intro conjI grows_raise) (simp_all add: io_raise_def)

lemma yields_bind:
  assumes "yields m s (Inr v)" and "\<And>x. grows (f x)"
    and "\<And>s'. execution_tracker s' \<noteq> None \<Longrightarrow> yields (f v) s' r"
  shows "yields (io_bind m f) s r"
  unfolding io_bind_compose
  by (rule yields_compose [OF assms(1)]) (auto simp: grows_raise assms split: sum.splits)

lemma yields_bind_raise:
  assumes "yields m s (Inl e)" and "\<And>x. grows (f x)"
  shows "yields (io_bind m f) s (Inl e)"
  unfolding io_bind_compose
  by (rule yields_compose [OF assms(1)]) (auto simp: grows_raise yields_raise assms split: sum.splits)

lemma yields_then:
  assumes "yields m s (Inr ())" and "\<And>s'. execution_tracker s' \<noteq> None \<Longrightarrow> yields k s' r"
  shows "yields (io_then m k) s r"
proof -
  have "execution_tracker (snd (m s)) \<noteq> None" using assms(1) by (simp add: yields_def)
  then have "grows k" using assms(2) yields_grows by blast
  then show ?thesis
    unfolding io_then_def by (intro yields_bind [OF assms(1)] assms(2))
qed

lemma yields_except_return:
  assumes "yields m s (Inr x)" and "\<And>e k. h e = Some k \<Longrightarrow> grows k"
  shows "yields (io_except m h) s (Inr x)"
  unfolding io_except_compose
  by (rule yields_compose [OF assms(1)])
    (auto simp: grows_raise grows_return yields_return assms split: sum.splits option.splits)

lemma yields_except_caught:
  assumes "yields m s (Inl e)" and "h e = Some k"
    and "\<And>s'. execution_tracker s' \<noteq> None \<Longrightarrow> yields k s' r"
    and "\<And>e k. h e = Some k \<Longrightarrow> grows k"
  shows "yields (io_except m h) s r"
  unfolding io_except_compose
  by (rule yields_compose [OF assms(1)])
    (auto simp: grows_raise grows_return assms split: sum.splits option.splits)

lemma yields_except_pass:
  assumes "yields m s (Inl e)" and "h e = None" and "\<And>e k. h e = Some k \<Longrightarrow> grows k"
  shows "yields (io_except m h) s (Inl e)"
  unfolding io_except_compose
  by (rule yields_compose [OF assms(1)])
    (auto simp: grows_raise grows_return yields_raise assms split: sum.splits option.splits)

lemma yields_on_emitter:
  assumes "execution_tracker s \<noteq> None" and "grows (on_emitter f)" and "quietly (on_emitter f) s (Inr ())"
  shows "yields (on_emitter f) s (Inr ())"
  using assms extends_tracker [OF grows_extends [OF assms(2)] assms(1)]
  by (simp add: yields_def)

lemma yields_status: "execution_tracker s \<noteq> None \<Longrightarrow> yields (on_emitter (status d st dn)) s (Inr ())"
  by (rule yields_on_emitter) (simp_all add: grows_methods quietly_methods)

lemma yields_fail: "execution_tracker s \<noteq> None \<Longrightarrow> yields (on_emitter (fail d)) s (Inr ())"
  by (rule yields_on_emitter) (simp_all add: grows_methods quietly_methods)

lemma yields_clear_status: "execution_tracker s \<noteq> None \<Longrightarrow> yields (on_emitter clear_status) s (Inr ())"
  by (rule yields_on_emitter) (simp_all add: grows_methods quietly_methods)

lemma yields_message: "execution_tracker s \<noteq> None \<Longrightarrow> yields (on_emitter (message m)) s (Inr ())"
  by (rule yields_on_emitter) (simp_all add: grows_methods quietly_methods)

lemma yields_publish: "execution_tracker s \<noteq> None \<Longrightarrow> yields publish s (Inr ())"
proof -
  assume r: "execution_tracker s \<noteq> None"
  then obtain t where t: "execution_tracker s = Some t" by auto
  have "yields (on_emitter (code_execution t)) s (Inr ())"
    by (rule yields_on_emitter) (simp_all add: r grows_methods quietly_methods)
  then have "execution_tracker (snd (on_emitter (code_execution t) s)) \<noteq> None"
    and "quietly (on_emitter (code_execution t)) s (Inr ())"
    by (simp_all add: yields_def)
  with t show ?thesis
    unfolding yields_def quietly_def
    by (intro conjI grows_publish) (simp_all add: publish_def)
qed

lemma yields_set_error: "execution_tracker s \<noteq> None \<Longrightarrow> yields (tracker_set_error e) s (Inr ())"
  unfolding yields_def quietly_def
  by (intro conjI grows_set_error) (auto simp: tracker_set_error_def)

lemma yields_set_output: "execution_tracker s \<noteq> None \<Longrightarrow> yields (tracker_set_output out) s (Inr ())"
  unfolding yields_def quietly_def
  by (intro conjI grows_set_output) (auto simp: tracker_set_output_def)

lemma yields_create_tracker: "yields (create_tracker t) s (Inr ())"
  unfolding yields_def quietly_def
  by (intro conjI grows_create_tracker) (simp_all add: create_tracker_def)

lemmas yields_steps = yields_status yields_fail yields_clear_status yields_message yields_publish
  yields_set_error yields_set_output yields_return

text \<open>The failure closures.\<close>

lemma grows_set_error_publish:
  "grows (\<lambda>s. case execution_tracker s of
        None \<Rightarrow> (Inr (), s)
      | Some t \<Rightarrow> io_then (tracker_set_error msg) publish s)"
  unfolding grows_def
proof
  fix s :: run_state
  show "extends s (snd (case execution_tracker s of
        None \<Rightarrow> (Inr (), s)
      | Some t \<Rightarrow> io_then (tracker_set_error msg) publish s))"
    using grows_extends [OF grows_then [OF grows_set_error grows_publish], where s = s]
    by (cases "execution_tracker s") (simp_all add: extends_refl)
qed

lemma grows_fail_direct: "grows (fail_direct valves language cd msg st)"
  unfolding fail_direct_def
  by (intro grows_then grows_set_error_publish grows_steps)

lemma grows_fail_transcript: "grows (fail_transcript ev valves body msg st)"
  unfolding fail_transcript_def
  by (intro grows_then grows_steps)

lemma quietly_emit_return:
  assumes "\<And>em. delivered em (snd (f em)) \<Longrightarrow> fst (f em) = None"
  shows "quietly (io_then (on_emitter f) (io_return x)) s (Inr x)"
  using assms [of "emitter s"]
  by (cases "f (emitter s)")
    (auto simp: quietly_def returned_since_def io_then_def io_bind_def on_emitter_def io_return_def
      split: option.splits)

lemma quietly_fail_transcript:
  "quietly (fail_transcript ev valves body msg st) s (Inr \<lparr>res_status = st, res_output = Str msg\<rparr>)"
  unfolding fail_transcript_def
  by (rule quietly_emit_return) (rule methods_quiet)

lemma yields_fail_direct:
  assumes "execution_tracker s \<noteq> None"
  shows "yields (fail_direct valves language cd msg st) s
     (Inr \<lparr>res_status = st, res_output = Str msg\<rparr>)"
proof -
  from assms obtain t where t: "execution_tracker s = Some t" by auto
  have "yields (io_then (tracker_set_error msg) publish) s (Inr ())"
    using assms by (intro yields_then yields_steps)
  with t have 1: "yields (\<lambda>s. case execution_tracker s of None \<Rightarrow> (Inr (), s)
        | Some t \<Rightarrow> io_then (tracker_set_error msg) publish s) s (Inr ())"
    unfolding yields_def quietly_def
    by (intro conjI grows_set_error_publish) simp_all
  show ?thesis
    unfolding fail_direct_def
    by (rule yields_then [OF 1]) (intro yields_then yields_steps, assumption+)
qed


lemma strip_Nil [simp]: "strip [] = []"
  by (simp add: strip_def lstrip_def rstrip_def)

lemma bytes_strip_Nil [simp]: "bytes_strip [] = []"
  by (simp add: bytes_strip_def)

lemma trimmed: "(if value_truthy out then strip_value out else out) = strip_value out"
  by (cases out) (auto simp: value_truthy_def strip_value_def)

lemma strip_value_None [simp]: "strip_value out = NoneValue \<longleftrightarrow> out = NoneValue"
  by (cases out) (auto simp: strip_value_def)

lemma grows_select_interpreter: "grows (select_interpreter ev language)"
  by (simp add: select_interpreter_def Let_def grows_return grows_raise)

lemma grows_run_subprocess: "grows (run_subprocess ev valves p cd)"
  by (simp add: run_subprocess_def grows_return grows_raise split: proc_result.splits)

lemma grows_execute: "grows (execute ev valves p cd)"
  unfolding execute_def
  by (rule grows_except)
    (auto intro!: grows_intros grows_run_subprocess split: exn.splits)

lemma grows_final_message: "grows (final_message valves language language_title cd st out)"
  unfolding final_message_def by (intro grows_intros)

lemma grows_report: "grows (report valves language language_title cd r)"
  unfolding report_def Let_def by (intro grows_intros grows_final_message)

lemma grows_execute_transcript: "grows (execute_transcript ev valves language language_title cd)"
  unfolding execute_transcript_def
  by (rule grows_except)
    (auto intro!: grows_intros grows_run_subprocess grows_select_interpreter split: exn.splits)

lemma grows_report_transcript: "grows (report_transcript valves language_title r)"
  unfolding report_transcript_def Let_def by (intro grows_intros)

lemma yields_select_interpreter:
  "execution_tracker s \<noteq> None \<Longrightarrow> yields (select_interpreter ev language) s
     (case interpreter_for ev language of
        None \<Rightarrow> Inl (RuntimeError (''Cannot find interpreter for language: '' @ language))
      | Some p \<Rightarrow> Inr p)"
  by (simp add: select_interpreter_def interpreter_for_def Let_def yields_return yields_raise)

lemma yields_run_subprocess:
  "execution_tracker s \<noteq> None \<Longrightarrow> yields (run_subprocess ev valves p cd) s
     (case subprocess_run ev [p, ''/dev/stdin''] (cd @ [newline]) (MAX_RUNTIME_SECONDS valves) of
        Completed result \<Rightarrow> Inr result
      | TimedOut m err \<Rightarrow> Inl (TimeoutExpired m err)
      | Failed m \<Rightarrow> Inl (OtherException m))"
  by (simp add: run_subprocess_def yields_return yields_raise split: proc_result.splits)

lemma yields_final_message:
  "execution_tracker s \<noteq> None \<Longrightarrow> st = OK \<and> out \<noteq> NoneValue \<or> st = TIMEOUT \<or> st = ERROR \<Longrightarrow>
     yields (final_message valves language language_title cd st out) s (Inr ())"
  by (auto simp: final_message_def yields_message)

lemma yields_report:
  assumes "execution_tracker s \<noteq> None" and "st = OK \<and> out \<noteq> NoneValue \<or> st = TIMEOUT \<or> st = ERROR"
  shows "yields (report valves language language_title cd (st, out)) s
           (Inr \<lparr>res_status = st, res_output = strip_value out\<rparr>)"
proof -
  have f: "st = OK \<and> strip_value out \<noteq> NoneValue \<or> st = TIMEOUT \<or> st = ERROR"
    using assms(2) by auto
  show ?thesis
    unfolding report_def Let_def fst_conv snd_conv trimmed
    using assms(1) f
    by (intro yields_then yields_steps yields_final_message) (simp_all add: yields_steps)
qed

text \<open>The inner \<open>try\<close> of the direct variant.\<close>

lemma execute_handlers:
  "(case e of
      TimeoutExpired m err \<Rightarrow>
        Some (io_then (on_emitter (fail (timeout_text valves)))
             (io_then (tracker_set_error (timeout_text valves))
             (io_return (TIMEOUT, bytes_value err))))
    | _ \<Rightarrow> None) = Some k \<Longrightarrow> grows k"
  by (auto intro!: grows_intros split: exn.splits)

lemma yields_execute:
  assumes "execution_tracker s \<noteq> None"
  shows "yields (execute ev valves p cd) s
     (case subprocess_run ev [p, ''/dev/stdin''] (cd @ [newline]) (MAX_RUNTIME_SECONDS valves) of
        Completed result \<Rightarrow>
          Inr (if returncode result \<noteq> 0 then (ERROR, Str (stderr result))
               else (OK, Str (stdout result)))
      | TimedOut m err \<Rightarrow> Inr (TIMEOUT, bytes_value err)
      | Failed m \<Rightarrow> Inl (OtherException m))"
proof (cases "subprocess_run ev [p, ''/dev/stdin''] (cd @ [newline]) (MAX_RUNTIME_SECONDS valves)")
  case (Completed result)
  have sub: "yields (run_subprocess ev valves p cd) s (Inr result)"
    using yields_run_subprocess [OF assms, of ev valves p cd] Completed by simp
  have "yields (execute ev valves p cd) s
      (Inr (if returncode result \<noteq> 0 then (ERROR, Str (stderr result))
            else (OK, Str (stdout result))))"
    unfolding execute_def
    by (rule yields_except_return [OF yields_bind [OF sub] execute_handlers])
      (auto simp: yields_return grows_return)
  then show ?thesis by (simp add: Completed)
next
  case (TimedOut m err)
  have "yields (run_subprocess ev valves p cd) s (Inl (TimeoutExpired m err))"
    using yields_run_subprocess [OF assms, of ev valves p cd] TimedOut by simp
  then have "yields (io_bind (run_subprocess ev valves p cd) (\<lambda>result.
          if returncode result \<noteq> 0 then io_return (ERROR, Str (stderr result))
          else io_return (OK, Str (stdout result)))) s (Inl (TimeoutExpired m err))"
    by (rule yields_bind_raise) (simp add: grows_return)
  then have "yields (execute ev valves p cd) s (Inr (TIMEOUT, bytes_value err))"
    unfolding execute_def
    by (rule yields_except_caught)
      (simp, (intro yields_then yields_steps, assumption+), erule execute_handlers)
  then show ?thesis by (simp add: TimedOut)
next
  case (Failed m)
  have "yields (run_subprocess ev valves p cd) s (Inl (OtherException m))"
    using yields_run_subprocess [OF assms, of ev valves p cd] Failed by simp
  then have "yields (io_bind (run_subprocess ev valves p cd) (\<lambda>result.
          if returncode result \<noteq> 0 then io_return (ERROR, Str (stderr result))
          else io_return (OK, Str (stdout result)))) s (Inl (OtherException m))"
    by (rule yields_bind_raise) (simp add: grows_return)
  then have "yields (execute ev valves p cd) s (Inl (OtherException m))"
    unfolding execute_def
    by (rule yields_except_pass) (simp, erule execute_handlers)
  then show ?thesis by (simp add: Failed)
qed

lemma yields_run_normalized:
  "yields (run_normalized ev valves language cd) s (body_result ev valves language cd)"
proof -
  let ?K = "io_bind (select_interpreter ev language) (\<lambda>interpreter_path.
         io_bind (execute ev valves interpreter_path cd) (\<lambda>r.
         report valves language (title language) cd r))"
  have g2: "grows (io_bind (execute ev valves x cd) (\<lambda>r. report valves language (title language) cd r))" for x
    by (intro grows_bind grows_execute grows_report)
  have pre: "yields (run_normalized ev valves language cd) s r"
    if "\<And>s'. execution_tracker s' \<noteq> None \<Longrightarrow> yields ?K s' r" for r
    unfolding run_normalized_def Let_def
    by (intro yields_then yields_create_tracker yields_steps that) assumption+
  show ?thesis
  proof (cases "interpreter_for ev language")
    case None
    have k: "yields ?K s' (Inl (RuntimeError (''Cannot find interpreter for language: '' @ language)))"
      if "execution_tracker s' \<noteq> None" for s'
      using yields_select_interpreter [OF that, of ev language] None
      by (intro yields_bind_raise g2) simp
    have "yields (run_normalized ev valves language cd) s
        (Inl (RuntimeError (''Cannot find interpreter for language: '' @ language)))"
      by (rule pre) (rule k)
    then show ?thesis by (simp add: body_result_def None)
  next
    case (Some p)
    have sel: "yields (select_interpreter ev language) s' (Inr p)" if "execution_tracker s' \<noteq> None" for s'
      using yields_select_interpreter [OF that, of ev language] Some by simp
    show ?thesis
    proof (cases "subprocess_run ev [p, ''/dev/stdin''] (cd @ [newline]) (MAX_RUNTIME_SECONDS valves)")
      case (Completed result)
      have k: "yields ?K s' (Inr \<lparr>res_status = (if returncode result \<noteq> 0 then ERROR else OK),
              res_output = strip_value (if returncode result \<noteq> 0 then Str (stderr result)
                 else Str (stdout result))\<rparr>)"
        if r: "execution_tracker s' \<noteq> None" for s'
      proof (rule yields_bind [OF sel [OF r] g2], rule yields_bind [OF _ grows_report])
        fix s1 :: run_state assume "execution_tracker s1 \<noteq> None"
        then show "yields (execute ev valves p cd) s1
            (Inr (if returncode result \<noteq> 0 then ERROR else OK,
                  if returncode result \<noteq> 0 then Str (stderr result) else Str (stdout result)))"
          using yields_execute [of s1 ev valves p cd] Completed by (simp split: if_splits)
      next
        fix s1 s2 :: run_state assume "execution_tracker s2 \<noteq> None"
        then show "yields (report valves language (title language) cd
            (if returncode result \<noteq> 0 then ERROR else OK,
             if returncode result \<noteq> 0 then Str (stderr result) else Str (stdout result))) s2
           (Inr \<lparr>res_status = (if returncode result \<noteq> 0 then ERROR else OK),
              res_output = strip_value (if returncode result \<noteq> 0 then Str (stderr result)
                 else Str (stdout result))\<rparr>)"
          by (intro yields_report) auto
      qed
      have "yields (run_normalized ev valves language cd) s
          (Inr \<lparr>res_status = (if returncode result \<noteq> 0 then ERROR else OK),
              res_output = strip_value (if returncode result \<noteq> 0 then Str (stderr result)
                 else Str (stdout result))\<rparr>)"
        by (rule pre) (rule k)
      then show ?thesis
        by (cases "returncode result = 0") (simp_all add: body_result_def Some Completed strip_value_def)
    next
      case (TimedOut m err)
      have k: "yields ?K s' (Inr \<lparr>res_status = TIMEOUT, res_output = strip_value (bytes_value err)\<rparr>)"
        if r: "execution_tracker s' \<noteq> None" for s'
      proof (rule yields_bind [OF sel [OF r] g2], rule yields_bind [OF _ grows_report])
        fix s1 :: run_state assume "execution_tracker s1 \<noteq> None"
        then show "yields (execute ev valves p cd) s1 (Inr (TIMEOUT, bytes_value err))"
          using yields_execute [of s1 ev valves p cd] TimedOut by simp
      next
        fix s1 s2 :: run_state assume "execution_tracker s2 \<noteq> None"
        then show "yields (report valves language (title language) cd (TIMEOUT, bytes_value err)) s2
           (Inr \<lparr>res_status = TIMEOUT, res_output = strip_value (bytes_value err)\<rparr>)"
          by (intro yields_report) auto
      qed
      have "yields (run_normalized ev valves language cd) s
          (Inr \<lparr>res_status = TIMEOUT, res_output = strip_value (bytes_value err)\<rparr>)"
        by (rule pre) (rule k)
      then show ?thesis by (simp add: body_result_def Some TimedOut)
    next
      case (Failed m)
      have k: "yields ?K s' (Inl (OtherException m))" if r: "execution_tracker s' \<noteq> None" for s'
      proof (rule yields_bind [OF sel [OF r] g2], rule yields_bind_raise [OF _ grows_report])
        fix s1 :: run_state assume "execution_tracker s1 \<noteq> None"
        then show "yields (execute ev valves p cd) s1 (Inl (OtherException m))"
          using yields_execute [of s1 ev valves p cd] Failed by simp
      qed
      have "yields (run_normalized ev valves language cd) s (Inl (OtherException m))"
        by (rule pre) (rule k)
      then show ?thesis by (simp add: body_result_def Some Failed)
    qed
  qed
qed

lemma yields_fail_transcript:
  "execution_tracker s \<noteq> None \<Longrightarrow> yields (fail_transcript ev valves body msg st) s
     (Inr \<lparr>res_status = st, res_output = Str msg\<rparr>)"
  unfolding fail_transcript_def
  by (intro yields_then yields_steps) assumption+

lemma yields_report_transcript:
  assumes "execution_tracker s \<noteq> None" and "st = OK \<or> st = TIMEOUT \<or> st = ERROR"
  shows "yields (report_transcript valves language_title (st, out)) s
           (Inr \<lparr>res_status = st, res_output = strip_value out\<rparr>)"
proof (cases "st = OK")
  case True
  then show ?thesis
    unfolding report_transcript_def Let_def fst_conv snd_conv trimmed
    using assms(1)
    by (intro yields_then yields_steps) (simp_all add: yields_steps yields_then)
next
  case False
  have m: "yields (if st = TIMEOUT then
                (if value_truthy out'
                 then on_emitter (message (timeout_output_text valves language_title (str_value out')))
                 else on_emitter (message (timeout_only_text valves language_title)))
              else if st = ERROR \<and> value_truthy out' then
                on_emitter (message (error_output_text language_title (str_value out')))
              else if st = ERROR then
                on_emitter (message (error_only_text language_title))
              else io_raise (RuntimeError (unexplained_text st out'))) s' (Inr ())"
    if "execution_tracker s' \<noteq> None" for s' out'
    using assms(2) False that by (auto simp: yields_message)
  from False show ?thesis
    unfolding report_transcript_def Let_def fst_conv snd_conv trimmed
    using assms(1)
    by (intro yields_then yields_steps) (simp_all add: yields_steps yields_then m)
qed

lemma execute_transcript_handlers:
  "(case e of
      TimeoutExpired m err \<Rightarrow>
        Some (io_then (on_emitter (fail (timeout_text valves)))
             (io_then (tracker_set_error (timeout_text valves))
             (io_return (TIMEOUT, bytes_value err))))
    | CalledProcessError rc cmd out err \<Rightarrow>
        Some (io_then (on_emitter (fail (language_title @ '': '' @ str_exn ev e)))
             (io_then (tracker_set_error (language_title @ '': '' @ str_exn ev e))
             (io_return (ERROR, text_value err))))
    | _ \<Rightarrow> None) = Some k \<Longrightarrow> grows k"
  by (auto intro!: grows_intros split: exn.splits)

lemma yields_execute_transcript:
  assumes "execution_tracker s \<noteq> None"
  shows "yields (execute_transcript ev valves language language_title cd) s
     (case interpreter_for ev language of
        None \<Rightarrow> Inl (RuntimeError (''Cannot find interpreter for language: '' @ language))
      | Some p \<Rightarrow>
         (case subprocess_run ev [p, ''/dev/stdin''] (cd @ [newline]) (MAX_RUNTIME_SECONDS valves) of
            Completed result \<Rightarrow>
              Inr (if returncode result \<noteq> 0 then (ERROR, Str (stderr result))
                   else (OK, Str (stdout result)))
          | TimedOut m err \<Rightarrow> Inr (TIMEOUT, bytes_value err)
          | Failed m \<Rightarrow> Inl (OtherException m)))"
proof -
  let ?B = "io_bind (select_interpreter ev language) (\<lambda>interpreter_path.
        io_bind (run_subprocess ev valves interpreter_path cd) (\<lambda>result.
          if returncode result \<noteq> 0
          then io_raise (CalledProcessError (returncode result) [interpreter_path, ''/dev/stdin'']
                           (Some (stdout result)) (Some (stderr result)))
          else io_return (OK, Str (stdout result))))"
  have g1: "grows (if returncode result \<noteq> 0
          then io_raise (CalledProcessError (returncode result) [x, ''/dev/stdin'']
                           (Some (stdout result)) (Some (stderr result)))
          else io_return (OK, Str (stdout result)))" for result x
    by (simp add: grows_return grows_raise)
  have g2: "grows (io_bind (run_subprocess ev valves x cd) (\<lambda>result.
          if returncode result \<noteq> 0
          then io_raise (CalledProcessError (returncode result) [x, ''/dev/stdin'']
                           (Some (stdout result)) (Some (stderr result)))
          else io_return (OK, Str (stdout result))))" for x
    by (intro grows_bind grows_run_subprocess g1)
  show ?thesis
  proof (cases "interpreter_for ev language")
    case None
    have "yields ?B s (Inl (RuntimeError (''Cannot find interpreter for language: '' @ language)))"
      using yields_select_interpreter [OF assms, of ev language] None
      by (intro yields_bind_raise g2) simp
    then have "yields (execute_transcript ev valves language language_title cd) s
        (Inl (RuntimeError (''Cannot find interpreter for language: '' @ language)))"
      unfolding execute_transcript_def
      by (rule yields_except_pass) (simp, erule execute_transcript_handlers)
    then show ?thesis by (simp add: None)
  next
    case (Some p)
    have sel: "yields (select_interpreter ev language) s (Inr p)"
      using yields_select_interpreter [OF assms, of ev language] Some by simp
    show ?thesis
    proof (cases "subprocess_run ev [p, ''/dev/stdin''] (cd @ [newline]) (MAX_RUNTIME_SECONDS valves)")
      case (Completed result)
      have sub: "yields (run_subprocess ev valves p cd) s' (Inr result)"
        if "execution_tracker s' \<noteq> None" for s'
        using yields_run_subprocess [OF that, of ev valves p cd] Completed by simp
      show ?thesis
      proof (cases "returncode result = 0")
        case True
        have "yields ?B s (Inr (OK, Str (stdout result)))"
          by (rule yields_bind [OF sel g2], rule yields_bind [OF sub g1])
            (simp_all add: True yields_return)
        then have "yields (execute_transcript ev valves language language_title cd) s
            (Inr (OK, Str (stdout result)))"
          unfolding execute_transcript_def
          by (rule yields_except_return) (erule execute_transcript_handlers)
        then show ?thesis by (simp add: Some Completed True)
      next
        case False
        have "yields ?B s (Inl (CalledProcessError (returncode result) [p, ''/dev/stdin'']
                           (Some (stdout result)) (Some (stderr result))))"
          by (rule yields_bind [OF sel g2], rule yields_bind [OF sub g1])
            (simp_all add: False yields_raise)
        then have "yields (execute_transcript ev valves language language_title cd) s
            (Inr (ERROR, text_value (Some (stderr result))))"
          unfolding execute_transcript_def
          by (rule yields_except_caught)
            (simp, (intro yields_then yields_steps, assumption+), erule execute_transcript_handlers)
        then show ?thesis by (simp add: Some Completed False text_value_def)
      qed
    next
      case (TimedOut m err)
      have sub: "yields (run_subprocess ev valves p cd) s' (Inl (TimeoutExpired m err))"
        if "execution_tracker s' \<noteq> None" for s'
        using yields_run_subprocess [OF that, of ev valves p cd] TimedOut by simp
      have "yields ?B s (Inl (TimeoutExpired m err))"
        by (rule yields_bind [OF sel g2], rule yields_bind_raise [OF sub g1])
      then have "yields (execute_transcript ev valves language language_title cd) s
          (Inr (TIMEOUT, bytes_value err))"
        unfolding execute_transcript_def
        by (rule yields_except_caught)
          (simp, (intro yields_then yields_steps, assumption+), erule execute_transcript_handlers)
      then show ?thesis by (simp add: Some TimedOut)
    next
      case (Failed m)
      have sub: "yields (run_subprocess ev valves p cd) s' (Inl (OtherException m))"
        if "execution_tracker s' \<noteq> None" for s'
        using yields_run_subprocess [OF that, of ev valves p cd] Failed by simp
      have "yields ?B s (Inl (OtherException m))"
        by (rule yields_bind [OF sel g2], rule yields_bind_raise [OF sub g1])
      then have "yields (execute_transcript ev valves language language_title cd) s
          (Inl (OtherException m))"
        unfolding execute_transcript_def
        by (rule yields_except_pass) (simp, erule execute_transcript_handlers)
      then show ?thesis by (simp add: Some Failed)
    qed
  qed
qed

lemma yields_run_block:
  "yields (run_block ev valves language cd) s (body_result ev valves language cd)"
proof -
  let ?K = "io_bind (execute_transcript ev valves language (title language) cd) (\<lambda>r.
         report_transcript valves (title language) r)"
  have pre: "yields (run_block ev valves language cd) s r"
    if "\<And>s'. execution_tracker s' \<noteq> None \<Longrightarrow> yields ?K s' r" for r
    unfolding run_block_def Let_def
    by (intro yields_then yields_create_tracker yields_steps that) assumption+
  have ex: "yields (execute_transcript ev valves language (title language) cd) s' x
      \<Longrightarrow> (\<And>e. x = Inl e \<Longrightarrow> r = Inl e)
      \<Longrightarrow> (\<And>st out. x = Inr (st, out) \<Longrightarrow>
            (st = OK \<or> st = TIMEOUT \<or> st = ERROR)
            \<and> r = Inr \<lparr>res_status = st, res_output = strip_value out\<rparr>)
      \<Longrightarrow> yields ?K s' r" for s' x r
  proof (cases x)
    case (Inl e)
    assume "yields (execute_transcript ev valves language (title language) cd) s' x"
      and "\<And>e. x = Inl e \<Longrightarrow> r = Inl e"
    with Inl show ?thesis by (auto intro: yields_bind_raise grows_report_transcript)
  next
    case (Inr p)
    obtain st out where p: "p = (st, out)" by (cases p)
    assume y: "yields (execute_transcript ev valves language (title language) cd) s' x"
      and "\<And>st out. x = Inr (st, out) \<Longrightarrow>
            (st = OK \<or> st = TIMEOUT \<or> st = ERROR)
            \<and> r = Inr \<lparr>res_status = st, res_output = strip_value out\<rparr>"
    with Inr p have c: "st = OK \<or> st = TIMEOUT \<or> st = ERROR"
      and r: "r = Inr \<lparr>res_status = st, res_output = strip_value out\<rparr>" by auto
    from y Inr p have "yields (execute_transcript ev valves language (title language) cd) s' (Inr (st, out))"
      by simp
    then show ?thesis
      unfolding r
      by (rule yields_bind) (rule grows_report_transcript, rule yields_report_transcript [OF _ c])
  qed
  show ?thesis
  proof (rule pre)
    fix s' :: run_state assume r: "execution_tracker s' \<noteq> None"
    show "yields ?K s' (body_result ev valves language cd)"
      by (rule ex [OF yields_execute_transcript [OF r]])
        (auto simp: body_result_def strip_value_def split: option.splits proc_result.splits if_splits)
  qed
qed

lemma classified_body:
  "classified_outcome ev valves language cd =
     (case body_result ev valves language cd of
        Inr r \<Rightarrow> r
      | Inl e \<Rightarrow> \<lparr>res_status = SANDBOX_ERROR,
                   res_output = Str (''Unhandled exception: '' @ str_exn ev e)\<rparr>)"
  by (simp add: classified_outcome_def body_result_def str_exn_def
      split: option.splits proc_result.splits)

lemma body_result_exception: "body_result ev valves language cd = Inl e \<Longrightarrow> is_exception e"
  by (auto simp: body_result_def split: option.splits proc_result.splits)

lemma handler_direct_caught:
  "is_exception e \<Longrightarrow> handler_direct ev valves language cd e =
     Some (fail_direct valves language cd (''Unhandled exception: '' @ str_exn ev e) SANDBOX_ERROR)"
  by (simp add: handler_direct_def)

lemma handler_transcript_caught:
  "is_exception e \<Longrightarrow> handler_transcript ev valves body e =
     Some (fail_transcript ev valves body (''Unhandled exception: '' @ str_exn ev e) SANDBOX_ERROR)"
  by (simp add: handler_transcript_def)

lemma handler_direct_grows: "handler_direct ev valves language cd e = Some k \<Longrightarrow> grows k"
  by (auto simp: handler_direct_def grows_fail_direct split: if_splits)

lemma handler_transcript_grows: "handler_transcript ev valves body e = Some k \<Longrightarrow> grows k"
  by (auto simp: handler_transcript_def grows_fail_transcript split: if_splits)

lemma direct_refines:
  "yields (io_except (run_normalized ev valves language cd)
                   (handler_direct ev valves language cd)) s
           (Inr (classified_outcome ev valves language cd))"
proof (cases "body_result ev valves language cd")
  case (Inl e)
  have "yields (run_normalized ev valves language cd) s (Inl e)"
    using yields_run_normalized [of ev valves language cd s] Inl by simp
  then have "yields (io_except (run_normalized ev valves language cd)
                   (handler_direct ev valves language cd)) s
      (Inr \<lparr>res_status = SANDBOX_ERROR, res_output = Str (''Unhandled exception: '' @ str_exn ev e)\<rparr>)"
    by (rule yields_except_caught [where h = "handler_direct ev valves language cd",
          OF _ handler_direct_caught [OF body_result_exception [OF Inl]]])
      (rule yields_fail_direct, assumption, erule handler_direct_grows)
  then show ?thesis by (simp add: classified_body Inl)
next
  case (Inr r)
  have "yields (run_normalized ev valves language cd) s (Inr r)"
    using yields_run_normalized [of ev valves language cd s] Inr by simp
  then have "yields (io_except (run_normalized ev valves language cd)
                   (handler_direct ev valves language cd)) s (Inr r)"
    by (rule yields_except_return) (erule handler_direct_grows)
  then show ?thesis by (simp add: classified_body Inr)
qed

lemma transcript_refines:
  "yields (io_except (run_block ev valves language cd)
                   (handler_transcript ev valves body)) s
           (Inr (classified_outcome ev valves language cd))"
proof (cases "body_result ev valves language cd")
  case (Inl e)
  have "yields (run_block ev valves language cd) s (Inl e)"
    using yields_run_block [of ev valves language cd s] Inl by simp
  then have "yields (io_except (run_block ev valves language cd)
                   (handler_transcript ev valves body)) s
      (Inr \<lparr>res_status = SANDBOX_ERROR, res_output = Str (''Unhandled exception: '' @ str_exn ev e)\<rparr>)"
    by (rule yields_except_caught [where h = "handler_transcript ev valves body",
          OF _ handler_transcript_caught [OF body_result_exception [OF Inl]]])
      (rule yields_fail_transcript, assumption, erule handler_transcript_grows)
  then show ?thesis by (simp add: classified_body Inl)
next
  case (Inr r)
  have "yields (run_block ev valves language cd) s (Inr r)"
    using yields_run_block [of ev valves language cd s] Inr by simp
  then have "yields (io_except (run_block ev valves language cd)
                   (handler_transcript ev valves body)) s (Inr r)"
    by (rule yields_except_return) (erule handler_transcript_grows)
  then show ?thesis by (simp add: classified_body Inr)
qed

text \<open>Where a normal return can come from.\<close>

lemma bind_returns:
  "io_bind m f s = (Inr r, s') \<Longrightarrow> \<exists>x s1. m s = (Inr x, s1) \<and> f x s1 = (Inr r, s')"
  by (auto simp: io_bind_def split: prod.splits sum.splits)

lemma then_returns:
  "io_then m k s = (Inr r, s') \<Longrightarrow> \<exists>s1. m s = (Inr (), s1) \<and> k s1 = (Inr r, s')"
  by (auto simp: io_then_def dest: bind_returns)

lemma except_returns:
  "io_except m h s = (Inr r, s') \<Longrightarrow>
     m s = (Inr r, s') \<or> (\<exists>e s1 k. m s = (Inl e, s1) \<and> h e = Some k \<and> k s1 = (Inr r, s'))"
  by (auto simp: io_except_def split: prod.splits sum.splits option.splits)

lemma final_message_returns:
  "final_message valves language language_title cd st out s = (Inr u, s') \<Longrightarrow>
     st = OK \<or> st = TIMEOUT \<or> st = ERROR"
  by (auto simp: final_message_def io_raise_def split: if_splits)

lemma report_returns:
  assumes "report valves language language_title cd p s = (Inr r, s')"
  shows "res_status r = fst p \<and> (fst p = OK \<or> fst p = TIMEOUT \<or> fst p = ERROR)"
proof -
  from assms obtain s1 s2 s3 s4 s5 u where
    f: "final_message valves language language_title cd (fst p)
          (if value_truthy (snd p) then strip_value (snd p) else snd p) s3 = (Inr u, s4)"
    and r: "io_return \<lparr>res_status = fst p,
          res_output = (if value_truthy (snd p) then strip_value (snd p) else snd p)\<rparr> s5 = (Inr r, s')"
    unfolding report_def Let_def
    by (auto dest!: then_returns)
  from r have "res_status r = fst p" by (auto simp: io_return_def)
  with final_message_returns [OF f] show ?thesis by simp
qed

lemma report_transcript_returns:
  assumes "report_transcript valves language_title p s = (Inr r, s')"
  shows "res_status r = fst p \<and> (fst p = OK \<or> fst p = TIMEOUT \<or> fst p = ERROR)"
  using assms unfolding report_transcript_def Let_def
  by (auto dest!: then_returns simp: io_return_def io_raise_def split: if_splits)

lemma fail_direct_returns:
  "fail_direct valves language cd msg st s = (Inr r, s') \<Longrightarrow> res_status r = st"
  unfolding fail_direct_def by (auto dest!: then_returns simp: io_return_def)

lemma fail_transcript_returns:
  "fail_transcript ev valves body msg st s = (Inr r, s') \<Longrightarrow> res_status r = st"
  unfolding fail_transcript_def by (auto dest!: then_returns simp: io_return_def)

lemma run_normalized_returns:
  "run_normalized ev valves language cd s = (Inr r, s') \<Longrightarrow>
     res_status r = OK \<or> res_status r = TIMEOUT \<or> res_status r = ERROR"
  unfolding run_normalized_def Let_def
  by (auto dest!: then_returns bind_returns report_returns)

lemma run_block_returns:
  "run_block ev valves language cd s = (Inr r, s') \<Longrightarrow>
     res_status r = OK \<or> res_status r = TIMEOUT \<or> res_status r = ERROR"
  unfolding run_block_def Let_def
  by (auto dest!: then_returns bind_returns report_transcript_returns)

lemma run_code_returns:
  assumes "run_code ev valves language cd snk = (Inr r, s')"
  shows "res_status r \<in> {OK, ERROR, TIMEOUT, SANDBOX_ERROR}"
  using assms unfolding run_code_def handler_direct_def
  by (auto split: if_splits dest!: except_returns run_normalized_returns fail_direct_returns)

lemma action_try_returns:
  "action_try ev valves block language s = (Inr r, s') \<Longrightarrow>
     res_status r = OK \<or> res_status r = TIMEOUT \<or> res_status r = ERROR"
  unfolding action_try_def
  by (auto simp: io_raise_def split: option.splits dest!: run_block_returns)

lemma run_chosen_returns:
  assumes "run_chosen ev valves body segments s = (Inr r, s')"
  shows "res_status r \<in> {OK, ERROR, TIMEOUT, SANDBOX_ERROR}"
  using assms unfolding run_chosen_def handler_transcript_def
  by (auto split: if_splits prod.splits option.splits
      dest!: except_returns action_try_returns fail_transcript_returns)

lemma action_returns:
  assumes "action ev valves body snk = (Inr r, s')"
  shows "res_status r \<in> {OK, ERROR, TIMEOUT, INVALID_INPUT, SANDBOX_ERROR}"
  using assms unfolding action_def Let_def
  by (auto simp: io_raise_def split: if_splits option.splits field.splits
      dest!: run_chosen_returns fail_transcript_returns)

section \<open>Classification of the outcome\<close>









section \<open>Agreement of the two variants\<close>

text \<open>
  C9, as the code has it. For the same language and the same normalised code, the outer
  \<open>try\<close> statement of the direct variant and that of the transcript variant return the
  same status and output, whatever the subprocess does and whether or not an interpreter
  exists, when in both runs the sink, if there is one, returned from every notification
  delivered to it. (The variants differ in the notifications they send: the transcript
  variant reports a non-zero exit through \<open>fail\<close> as well.)
\<close>

theorem variants_agree:
  "returned_since (initial_state snk valves)
      (snd (io_except (run_normalized ev valves language cd) (handler_direct ev valves language cd)
              (initial_state snk valves)))
   \<and> returned_since (initial_state snk valves)
      (snd (io_except (run_block ev valves language cd) (handler_transcript ev valves body)
              (initial_state snk valves)))
   \<longrightarrow> fst (io_except (run_normalized ev valves language cd) (handler_direct ev valves language cd)
                (initial_state snk valves))
       = fst (io_except (run_block ev valves language cd) (handler_transcript ev valves body)
                (initial_state snk valves))"
  using direct_refines [of ev valves language cd "initial_state snk valves", THEN yields_fst]
    transcript_refines [of ev valves language cd body "initial_state snk valves", THEN yields_fst]
  by simp

text \<open>The amended C9 at a shell command that exits with code 1 and writes to standard
  error, with a sink that returns from every call.\<close>

theorem variants_agree_witness:
  "fst (io_except (run_normalized (example_env (Completed \<lparr>returncode = 1, stdout = [], stderr = ''boom\<newline>''\<rparr>))
                     example_valves ''bash'' ''exit 1'')
          (handler_direct (example_env (Completed \<lparr>returncode = 1, stdout = [], stderr = ''boom\<newline>''\<rparr>))
             example_valves ''bash'' ''exit 1'')
          (initial_state (Some returning_sink) example_valves))
   = fst (io_except (run_block (example_env (Completed \<lparr>returncode = 1, stdout = [], stderr = ''boom\<newline>''\<rparr>))
                     example_valves ''bash'' ''exit 1'')
          (handler_transcript (example_env (Completed \<lparr>returncode = 1, stdout = [], stderr = ''boom\<newline>''\<rparr>))
             example_valves example_body)
          (initial_state (Some returning_sink) example_valves))
   \<and> fst (io_except (run_block (example_env (Completed \<lparr>returncode = 1, stdout = [], stderr = ''boom\<newline>''\<rparr>))
                     example_valves ''bash'' ''exit 1'')
          (handler_transcript (example_env (Completed \<lparr>returncode = 1, stdout = [], stderr = ''boom\<newline>''\<rparr>))
             example_valves example_body)
          (initial_state (Some returning_sink) example_valves))
   = Inr \<lparr>res_status = ERROR, res_output = Str ''boom''\<rparr>"
proof -
  let ?E = "example_env (Completed \<lparr>returncode = 1, stdout = [], stderr = ''boom\<newline>''\<rparr>)"
  let ?s0 = "initial_state (Some returning_sink) example_valves"
  have v: "fst (io_except (run_block ?E example_valves ''bash'' ''exit 1'')
          (handler_transcript ?E example_valves example_body) ?s0)
   = Inr \<lparr>res_status = ERROR, res_output = Str ''boom''\<rparr>"
    by code_simp
  have d1: "returned_since ?s0
      (snd (io_except (run_normalized ?E example_valves ''bash'' ''exit 1'')
              (handler_direct ?E example_valves ''bash'' ''exit 1'') ?s0))"
    by code_simp
  have d2: "returned_since ?s0
      (snd (io_except (run_block ?E example_valves ''bash'' ''exit 1'')
              (handler_transcript ?E example_valves example_body) ?s0))"
    by code_simp
  from variants_agree [of "Some returning_sink" example_valves ?E "''bash''" "''exit 1''" example_body]
    d1 d2 v
  show ?thesis by simp
qed

text \<open>
  C9 as stated fails. The command exits with code 1 and writes \<open>boom\<close> to standard error,
  and the sink raises on the first status event it is given. The direct variant sends no
  status event and returns \<open>ERROR\<close> with \<open>boom\<close>; the transcript variant reports the
  exit through \<open>fail\<close>, the sink raises, the outer handler takes that exception and the
  result is \<open>SANDBOX_ERROR\<close>.
\<close>

theorem sink_failure_splits_variants:
  "fst (io_except (run_normalized (example_env (Completed \<lparr>returncode = 1, stdout = [], stderr = ''boom\<newline>''\<rparr>))
                     example_valves ''bash'' ''exit 1'')
          (handler_direct (example_env (Completed \<lparr>returncode = 1, stdout = [], stderr = ''boom\<newline>''\<rparr>))
             example_valves ''bash'' ''exit 1'')
          (initial_state (Some first_status_raising_sink) example_valves))
     = Inr \<lparr>res_status = ERROR, res_output = Str ''boom''\<rparr>
   \<and> fst (io_except (run_block (example_env (Completed \<lparr>returncode = 1, stdout = [], stderr = ''boom\<newline>''\<rparr>))
                     example_valves ''bash'' ''exit 1'')
          (handler_transcript (example_env (Completed \<lparr>returncode = 1, stdout = [], stderr = ''boom\<newline>''\<rparr>))
             example_valves example_body)
          (initial_state (Some first_status_raising_sink) example_valves))
     = Inr \<lparr>res_status = SANDBOX_ERROR, res_output = Str ''Unhandled exception: connection closed''\<rparr>"
  by code_simp

section \<open>No result with the status \<open>UNKNOWN\<close>\<close>

text \<open>
  C2. Whatever the sink does, a result returned by \<open>run_code\<close> has one of the statuses
  \<open>OK\<close>, \<open>ERROR\<close>, \<open>TIMEOUT\<close>, \<open>SANDBOX_ERROR\<close>, and a result returned by \<open>action\<close> one
  of these or \<open>INVALID_INPUT\<close>: never \<open>UNKNOWN\<close>. The final-message step raises
  \<open>RuntimeError\<close> on a status that is not \<open>OK\<close>, \<open>TIMEOUT\<close> or \<open>ERROR\<close>, so the report of
  neither variant returns normally with such a status.
\<close>

theorem unknown_never_reported:
  "(run_code ev valves language cd snk = (Inr r, s1) \<longrightarrow>
      res_status r \<in> {OK, ERROR, TIMEOUT, SANDBOX_ERROR})
   \<and> (action ev valves body snk = (Inr r', s2) \<longrightarrow>
      res_status r' \<in> {OK, ERROR, TIMEOUT, INVALID_INPUT, SANDBOX_ERROR})
   \<and> (st \<notin> {OK, TIMEOUT, ERROR} \<longrightarrow>
      final_message valves language language_title cd st out s
        = (Inl (RuntimeError (unexplained_text st out)), s))
   \<and> (st \<notin> {OK, TIMEOUT, ERROR} \<longrightarrow>
      (\<forall>x s3. report valves language language_title cd (st, out) s \<noteq> (Inr x, s3))
      \<and> (\<forall>x s3. report_transcript valves language_title (st, out) s \<noteq> (Inr x, s3)))"
proof -
  have 1: "run_code ev valves language cd snk = (Inr r, s1) \<longrightarrow>
      res_status r \<in> {OK, ERROR, TIMEOUT, SANDBOX_ERROR}"
    using run_code_returns by blast
  have 2: "action ev valves body snk = (Inr r', s2) \<longrightarrow>
      res_status r' \<in> {OK, ERROR, TIMEOUT, INVALID_INPUT, SANDBOX_ERROR}"
    using action_returns by blast
  have 3: "st \<notin> {OK, TIMEOUT, ERROR} \<longrightarrow>
      final_message valves language language_title cd st out s
        = (Inl (RuntimeError (unexplained_text st out)), s)"
    by (simp add: final_message_def io_raise_def)
  have 4: "st \<notin> {OK, TIMEOUT, ERROR} \<longrightarrow>
      (\<forall>x s3. report valves language language_title cd (st, out) s \<noteq> (Inr x, s3))"
    using report_returns [of valves language language_title cd "(st, out)" s] by auto
  have 5: "st \<notin> {OK, TIMEOUT, ERROR} \<longrightarrow>
      (\<forall>x s3. report_transcript valves language_title (st, out) s \<noteq> (Inr x, s3))"
    using report_transcript_returns [of valves language_title "(st, out)" s] by auto
  from 1 2 3 4 5 show ?thesis by blast
qed

text \<open>C2 at a successful direct request, at an empty transcript, and at the final-message
  step entered with \<open>UNKNOWN\<close>.\<close>

theorem unknown_never_reported_witness:
  "fst (run_code (example_env (Completed \<lparr>returncode = 0, stdout = ''2\<newline>'', stderr = []\<rparr>))
          example_valves ''python'' ''print(1+1)'' None)
     = Inr \<lparr>res_status = OK, res_output = Str ''2''\<rparr>
   \<and> res_status \<lparr>res_status = OK, res_output = Str ''2''\<rparr> \<in> {OK, ERROR, TIMEOUT, SANDBOX_ERROR}
   \<and> fst (action (example_env (Completed \<lparr>returncode = 0, stdout = ''2\<newline>'', stderr = []\<rparr>))
          example_valves \<lparr>messages = []\<rparr> None)
     = Inr \<lparr>res_status = INVALID_INPUT, res_output = Str ''No messages in conversation.''\<rparr>
   \<and> final_message example_valves ''python'' ''Python'' ''print(1+1)'' UNKNOWN NoneValue
          (initial_state None example_valves)
     = (Inl (RuntimeError ''Unexplained status: UNKNOWN (output: None)''),
        initial_state None example_valves)"
proof -
  let ?E = "example_env (Completed \<lparr>returncode = 0, stdout = ''2\<newline>'', stderr = []\<rparr>)"
  have a: "fst (run_code ?E example_valves ''python'' ''print(1+1)'' None)
     = Inr \<lparr>res_status = OK, res_output = Str ''2''\<rparr>"
    by code_simp
  then have a': "run_code ?E example_valves ''python'' ''print(1+1)'' None
     = (Inr \<lparr>res_status = OK, res_output = Str ''2''\<rparr>,
        snd (run_code ?E example_valves ''python'' ''print(1+1)'' None))"
    by (metis prod.collapse)
  have b: "fst (action ?E example_valves \<lparr>messages = []\<rparr> None)
     = Inr \<lparr>res_status = INVALID_INPUT, res_output = Str ''No messages in conversation.''\<rparr>"
    by code_simp
  have u: "unexplained_text UNKNOWN NoneValue = ''Unexplained status: UNKNOWN (output: None)''"
    by code_simp
  note w = unknown_never_reported [of ?E example_valves "''python''" "''print(1+1)''" None
      "\<lparr>res_status = OK, res_output = Str ''2''\<rparr>"
      "snd (run_code ?E example_valves ''python'' ''print(1+1)'' None)"
      "\<lparr>messages = []\<rparr>" "\<lparr>res_status = INVALID_INPUT, res_output = Str ''No messages in conversation.''\<rparr>"
      "snd (action ?E example_valves \<lparr>messages = []\<rparr> None)" UNKNOWN "''Python''" NoneValue
      "initial_state None example_valves"]
  from w a' have c: "res_status \<lparr>res_status = OK, res_output = Str ''2''\<rparr> \<in> {OK, ERROR, TIMEOUT, SANDBOX_ERROR}"
    by blast
  from w have d: "final_message example_valves ''python'' ''Python'' ''print(1+1)'' UNKNOWN NoneValue
          (initial_state None example_valves)
     = (Inl (RuntimeError (unexplained_text UNKNOWN NoneValue)), initial_state None example_valves)"
    by simp
  from a b c d show ?thesis unfolding u by blast
qed

section \<open>The outer handler\<close>








section \<open>The public entry points\<close>


















text \<open>At a timeout with captured standard error the output is a \<open>bytes\<close> value, and the
  entry point raises the \<open>TypeError\<close> of \<open>json.dumps\<close> instead of returning a text.\<close>

lemma entry_point_timeout_raises:
  "fst (run_python_code (example_env (TimedOut ''timed out'' (Some ''partial\<newline>''))) example_valves
          ''print(1+1)'' (Some returning_sink))
     = Inl (TypeError ''Object of type bytes is not JSON serializable'')
   \<and> fst (run_code (example_env (TimedOut ''timed out'' (Some ''partial\<newline>''))) example_valves
          ''python'' ''print(1+1)'' (Some returning_sink))
     = Inr \<lparr>res_status = TIMEOUT, res_output = Bytes ''partial''\<rparr>"
  by code_simp

section \<open>When the transcript variant answers \<open>INVALID_INPUT\<close>\<close>

text \<open>
  When the sink, if there is one, returned from every notification of the request, the
  transcript variant returns \<open>INVALID_INPUT\<close> exactly when the message list is empty, the
  last message has a role other than the assistant's, or its content is a string whose
  split on the fence gives fewer than three segments or an even number of them. A message
  without a recognisable code block is not among these cases.
\<close>

lemma invalid_input_iff:
  assumes "returned_since (initial_state snk valves) (snd (action ev valves body snk))"
  shows "(\<exists>out. fst (action ev valves body snk) = Inr \<lparr>res_status = INVALID_INPUT, res_output = out\<rparr>)
     \<longleftrightarrow> (messages body = []
          \<or> (\<exists>r. msg_role (last (messages body)) = Some r \<and> r \<noteq> Text ''assistant'')
          \<or> (msg_role (last (messages body)) = Some (Text ''assistant'')
              \<and> (\<exists>t. msg_content (last (messages body)) = Some (Text t)
                    \<and> (length (split_fence t) < 3 \<or> length (split_fence t) mod 2 \<noteq> 1))))"
    (is "?L \<longleftrightarrow> ?R")
proof
  assume ?L
  then obtain out s' where a: "action ev valves body snk = (Inr \<lparr>res_status = INVALID_INPUT, res_output = out\<rparr>, s')"
    by (metis prod.collapse)
  show ?R
  proof (rule ccontr)
    assume "\<not> ?R"
    with a show False
      unfolding action_def Let_def
      by (auto simp: io_raise_def split: option.splits if_splits field.splits
          dest!: run_chosen_returns fail_transcript_returns)
  qed
next
  have f: "\<exists>out. fst (action ev valves body snk) = Inr \<lparr>res_status = INVALID_INPUT, res_output = out\<rparr>"
    if "action ev valves body snk
        = fail_transcript ev valves body msg INVALID_INPUT (initial_state snk valves)" for msg
    using assms quietly_fail_transcript [of ev valves body msg INVALID_INPUT "initial_state snk valves"]
    unfolding that by (auto simp: quietly_def)
  assume ?R
  then consider "messages body = []"
    | r where "messages body \<noteq> []" "msg_role (last (messages body)) = Some r" "r \<noteq> Text ''assistant''"
    | t where "messages body \<noteq> []" "msg_role (last (messages body)) = Some (Text ''assistant'')"
        "msg_content (last (messages body)) = Some (Text t)"
        "length (split_fence t) < 3 \<or> length (split_fence t) mod 2 \<noteq> 1"
    by blast
  then show ?L
  proof cases
    case 1
    then show ?thesis by (intro f [of "''No messages in conversation.''"]) (simp add: action_def)
  next
    case 2
    then show ?thesis
      by (intro f [of "''Last message was not from the AI model.''"]) (simp add: action_def Let_def)
  next
    case 3
    then show ?thesis
      by (intro f [of "''Last message did not contain well-formed code blocks.''"])
        (auto simp: action_def Let_def)
  qed
qed

end
